theory Spec2Isabelle
  imports Main "HOL-Library.Word"
begin

section \<open>The HTTP connection engine of libfnord\<close>

text \<open>
  A shallow embedding of \<^verbatim>\<open>src/libfnord/net/http/httpconnection.cc\<close>. Every member
  function of \<^verbatim>\<open>HTTPConnection\<close> becomes a function from the connection's state to an
  outcome and the new state. The collaborators that the connection only calls (transport,
  scheduler, parser, handler) appear as inputs of the function that calls them, and each
  call is written to a trace kept in the state.
\<close>

subsection \<open>Outcomes\<close>

text \<open>
  The first three errors are C++ exceptions deriving from \<^verbatim>\<open>fnord::Exception\<close>, which the
  \<^verbatim>\<open>catch (Exception& e)\<close> blocks of \<^verbatim>\<open>read\<close> intercept. The last three are undefined
  behaviour of the C++ program (touching the object after \<^verbatim>\<open>delete this\<close>, calling through
  a reference to a destroyed object, dereferencing an empty \<^verbatim>\<open>unique_ptr\<close>); nothing
  catches them.
\<close>

datatype error =
    IllegalStateError
  | ParseError
  | HandlerError
  | UseAfterFree
  | DanglingReference
  | NullPointer

datatype 'a result = Ok 'a | Raise error

fun is_exception :: "error \<Rightarrow> bool" where
  "is_exception IllegalStateError = True"
| "is_exception ParseError = True"
| "is_exception HandlerError = True"
| "is_exception UseAfterFree = False"
| "is_exception DanglingReference = False"
| "is_exception NullPointer = False"

subsection \<open>Collaborating types\<close>

type_synonym byte = "8 word"

text \<open>
  Modelled from the spec: the class \<^verbatim>\<open>Buffer\<close> has a source of its own. It
  owns a contiguous byte region, a logical size and a consumption mark; \<^verbatim>\<open>clear\<close> resets
  size and mark to zero and keeps the region, \<^verbatim>\<open>reserve\<close> ensures a capacity, \<^verbatim>\<open>setMark\<close>
  moves the mark. \<^verbatim>\<open>data\<close> is the start of the region and \<^verbatim>\<open>allocSize\<close> its length, a
  \<^verbatim>\<open>size_t\<close>: no region is longer than the largest value of that type, \<open>2 ^ 64 - 1\<close>. Sizes
  and marks are \<^verbatim>\<open>size_t\<close> too; they are natural numbers here, and where the connection
  adds two of them the sum wraps around as it does in the machine.
\<close>

record buffer =
  region :: "byte list"
  bsize :: nat
  bmark :: nat

definition empty_buffer :: buffer where
  "empty_buffer = \<lparr>region = [], bsize = 0, bmark = 0\<rparr>"

definition allocSize :: "buffer \<Rightarrow> nat" where
  "allocSize b = min (length (region b)) (2 ^ 64 - 1)"

definition size_t_add :: "nat \<Rightarrow> nat \<Rightarrow> nat" where
  "size_t_add a b = (a + b) mod 2 ^ 64"

definition reserve :: "nat \<Rightarrow> buffer \<Rightarrow> buffer" where
  "reserve n b = b\<lparr>region := region b @ replicate (n - length (region b)) 0\<rparr>"

definition clear :: "buffer \<Rightarrow> buffer" where
  "clear b = b\<lparr>bsize := 0, bmark := 0\<rparr>"

definition setMark :: "nat \<Rightarrow> buffer \<Rightarrow> buffer" where
  "setMark pos b = b\<lparr>bmark := pos\<rparr>"

text \<open>What a \<^verbatim>\<open>BufferOutputStream\<close> does when bytes are written to it: they go behind the
  logical content, and the region grows when it is too short.\<close>

definition append :: "byte list \<Rightarrow> buffer \<Rightarrow> buffer" where
  "append xs b =
     b\<lparr>region := take (bsize b) (region b) @ xs @ drop (bsize b + length xs) (region b),
       bsize := bsize b + length xs\<rparr>"

text \<open>A raw write of \<open>xs\<close> to \<^verbatim>\<open>data()\<close>, as the transport's \<^verbatim>\<open>read\<close> does: the start of
  the region is overwritten, size and mark are untouched.\<close>

definition poke :: "byte list \<Rightarrow> buffer \<Rightarrow> buffer" where
  "poke xs b = b\<lparr>region := xs @ drop (length xs) (region b)\<rparr>"

text \<open>The logical content \<open>[0, size)\<close> and its unconsumed part \<open>[mark, size)\<close>.\<close>

definition content :: "buffer \<Rightarrow> byte list" where
  "content b = take (bsize b) (region b)"

definition unconsumed :: "buffer \<Rightarrow> byte list" where
  "unconsumed b = drop (bmark b) (take (bsize b) (region b))"

text \<open>
  Modelled from the spec: the parser's states \<^verbatim>\<open>METHOD, URI, VERSION, HEADER, BODY, DONE\<close>
  are strictly ordered in this order (the enumeration is declared in the parser's
  header); \<open>state_rank\<close> is the enumerator's value, which \<^verbatim>\<open><\<close> compares.
\<close>

datatype parser_state = S_METHOD | S_URI | S_VERSION | S_HEADER | S_BODY | S_DONE

fun state_rank :: "parser_state \<Rightarrow> nat" where
  "state_rank S_METHOD = 0"
| "state_rank S_URI = 1"
| "state_rank S_VERSION = 2"
| "state_rank S_HEADER = 3"
| "state_rank S_BODY = 4"
| "state_rank S_DONE = 5"

text \<open>
  Modelled from the spec: \<^verbatim>\<open>HTTPRequest\<close> and \<^verbatim>\<open>HTTPResponse\<close> have sources of
  their own. A request accumulates method, URI, version and the headers in the order
  received; a response has a status, headers and a body.
\<close>

record http_request =
  req_method :: "nat option"
  req_uri :: "byte list"
  req_version :: "byte list"
  req_headers :: "(byte list \<times> byte list) list"

definition new_HTTPRequest :: http_request where
  "new_HTTPRequest = \<lparr>req_method = None, req_uri = [], req_version = [], req_headers = []\<rparr>"

record http_response =
  resp_status :: nat
  resp_headers :: "(byte list \<times> byte list) list"
  resp_body :: "byte list"

type_synonym callback_id = nat
type_synonym handler_id = nat

text \<open>The two closures that the connection itself stores in \<^verbatim>\<open>on_read_completed_cb_\<close>:
  the one of \<^verbatim>\<open>nextRequest\<close> and the one of \<^verbatim>\<open>readRequestBody\<close>.\<close>

datatype read_cb = DefaultHeaderCb | ReadBodyChunkCb

subsection \<open>The trace of calls\<close>

datatype event =
    TransportRead "byte list"
  | TransportReadFailed
  | TransportWrite "byte list" nat
  | TransportWriteFailed "byte list"
  | TransportClose
  | ParserReset
  | ParserEof
  | ParserParse "byte list"
  | RunOnReadable
  | RunOnWritable
  | IncRef
  | DecRef
  | Delete
  | ReadCompleted read_cb
  | WriteCompleted callback_id
  | BodyChunk "byte list" bool
  | HandleRequest handler_id

subsection \<open>The connection\<close>

text \<open>
  The members of \<^verbatim>\<open>HTTPConnection\<close> that the code reads and writes. \<open>deleted\<close> records
  that \<^verbatim>\<open>delete this\<close> has run; \<open>readable_armed\<close> and \<open>writable_armed\<close> count the one-shot
  callbacks registered with the scheduler and not yet run; \<open>trace\<close> is the sequence of calls
  made so far. The counter \<^verbatim>\<open>refcount_\<close> is atomic and unsigned; its declaration is in
  the class's header and it is taken as 64 bits wide.
\<close>

record conn =
  refcount :: "64 word"
  buf :: buffer
  body_buf :: buffer
  parser_state :: parser_state
  cur_request :: "http_request option"
  cur_handler :: "handler_id option"
  on_read_completed_cb :: "read_cb option"
  on_write_completed_cb :: "callback_id option"
  deleted :: bool
  readable_armed :: nat
  writable_armed :: nat
  trace :: "event list"

type_synonym 'a action = "conn \<Rightarrow> 'a result \<times> conn"

definition emit :: "event \<Rightarrow> conn \<Rightarrow> conn" where
  "emit e c = c\<lparr>trace := trace c @ [e]\<rparr>"

definition and_then :: "'a result \<times> conn \<Rightarrow> ('a \<Rightarrow> 'b action) \<Rightarrow> 'b result \<times> conn" where
  "and_then r f = (case r of (Ok x, c) \<Rightarrow> f x c | (Raise e, c) \<Rightarrow> (Raise e, c))"

definition ret :: "unit action" where
  "ret c = (Ok (), c)"

text \<open>
  What the code outside \<^verbatim>\<open>httpconnection.cc\<close> does when the connection calls it: the
  response generator, the request's keep-alive flag, the handler factory, the handler,
  and the completion callbacks that a handler passes to \<^verbatim>\<open>writeResponse\<close>. A callback is
  named by a number; the handler and the callbacks act on the connection they were given
  and may throw.
\<close>

record env =
  generate :: "http_response \<Rightarrow> byte list"
  keepalive :: "http_request \<Rightarrow> bool"
  getHandler :: "http_request option \<Rightarrow> handler_id"
  handleHTTPRequest :: "handler_id \<Rightarrow> unit action"
  invoke :: "callback_id \<Rightarrow> unit action"

text \<open>The constructor: one reference, no callbacks, \<^verbatim>\<open>buf_.reserve(kMinBufferSize)\<close>. The
  constant \<^verbatim>\<open>kMinBufferSize\<close> is declared in the class's header and is a parameter.\<close>

definition HTTPConnection :: "nat \<Rightarrow> conn" where
  "HTTPConnection kMinBufferSize =
     \<lparr>refcount = 1,
      buf = reserve kMinBufferSize empty_buffer,
      body_buf = empty_buffer,
      parser_state = S_METHOD,
      cur_request = None,
      cur_handler = None,
      on_read_completed_cb = None,
      on_write_completed_cb = None,
      deleted = False,
      readable_armed = 0,
      writable_armed = 0,
      trace = []\<rparr>"

text \<open>
  After \<^verbatim>\<open>delete this\<close> any access to a member is undefined behaviour. The model reports it
  where the counter is accessed; every path of \<^verbatim>\<open>read\<close> and \<^verbatim>\<open>write\<close> that returns ends with
  such an access.
\<close>

definition incRef :: "unit action" where
  "incRef c =
     (if deleted c then (Raise UseAfterFree, c)
      else (Ok (), emit IncRef (c\<lparr>refcount := refcount c + 1\<rparr>)))"

text \<open>\<^verbatim>\<open>fetch_sub(1)\<close> subtracts and returns the value before.\<close>

definition decRef :: "bool action" where
  "decRef c =
     (if deleted c then (Raise UseAfterFree, c)
      else
        let old = refcount c;
            c1 = emit DecRef (c\<lparr>refcount := old - 1\<rparr>)
        in if old = 1 then (Ok True, emit Delete (c1\<lparr>deleted := True\<rparr>))
           else (Ok False, c1))"

definition close :: "unit action" where
  "close c = and_then (decRef (emit TransportClose c)) (\<lambda>_. ret)"

definition awaitRead :: "unit action" where
  "awaitRead c =
     and_then (incRef c)
       (\<lambda>_ c1. (Ok (), emit RunOnReadable (c1\<lparr>readable_armed := readable_armed c1 + 1\<rparr>)))"

definition awaitWrite :: "unit action" where
  "awaitWrite c =
     and_then (incRef c)
       (\<lambda>_ c1. (Ok (), emit RunOnWritable (c1\<lparr>writable_armed := writable_armed c1 + 1\<rparr>)))"

text \<open>
  Modelled from the spec: \<^verbatim>\<open>parser_.reset()\<close> returns the parser to its initial state
  \<^verbatim>\<open>METHOD\<close>. The closure stored in \<^verbatim>\<open>on_read_completed_cb_\<close> is \<open>DefaultHeaderCb\<close>, which
  \<open>run_read_cb\<close> below interprets.
\<close>

definition nextRequest :: "unit action" where
  "nextRequest c =
     (let c1 = emit ParserReset (c\<lparr>parser_state := S_METHOD\<rparr>);
          c2 = c1\<lparr>cur_request := Some new_HTTPRequest\<rparr>;
          c3 = c2\<lparr>on_write_completed_cb := None\<rparr>;
          c4 = c3\<lparr>on_read_completed_cb := Some DefaultHeaderCb\<rparr>
      in awaitRead c4)"

definition start :: "nat \<Rightarrow> unit result \<times> conn" where
  "start kMinBufferSize = nextRequest (HTTPConnection kMinBufferSize)"

definition dispatchRequest :: "env \<Rightarrow> unit action" where
  "dispatchRequest E c =
     (let h = getHandler E (cur_request c);
          c1 = emit (HandleRequest h) (c\<lparr>cur_handler := Some h\<rparr>)
      in handleHTTPRequest E h c1)"

subsection \<open>The parser's callbacks\<close>

text \<open>
  The constructor registers five callbacks with the parser. Four of them store into the
  current request (through the \<^verbatim>\<open>unique_ptr\<close> \<^verbatim>\<open>cur_request_\<close>, which is empty before the
  first \<^verbatim>\<open>nextRequest\<close>), the fifth is \<^verbatim>\<open>dispatchRequest\<close>.
\<close>

definition on_request :: "(http_request \<Rightarrow> http_request) \<Rightarrow> unit action" where
  "on_request f c =
     (case cur_request c of
        None \<Rightarrow> (Raise NullPointer, c)
      | Some r \<Rightarrow> (Ok (), c\<lparr>cur_request := Some (f r)\<rparr>))"

definition onMethod :: "nat \<Rightarrow> unit action" where
  "onMethod m = on_request (\<lambda>r. r\<lparr>req_method := Some m\<rparr>)"

definition onURI :: "byte list \<Rightarrow> unit action" where
  "onURI u = on_request (\<lambda>r. r\<lparr>req_uri := u\<rparr>)"

definition onVersion :: "byte list \<Rightarrow> unit action" where
  "onVersion v = on_request (\<lambda>r. r\<lparr>req_version := v\<rparr>)"

definition onHeader :: "byte list \<Rightarrow> byte list \<Rightarrow> unit action" where
  "onHeader k v = on_request (\<lambda>r. r\<lparr>req_headers := req_headers r @ [(k, v)]\<rparr>)"

text \<open>
  The parser is a collaborator with its own source. What one call of \<^verbatim>\<open>parse\<close> or \<^verbatim>\<open>eof\<close> does to
  the connection is a sequence of steps: it moves to a state, it calls one of the five
  callbacks, or it throws. This sequence is an input of \<^verbatim>\<open>read\<close>.
\<close>

datatype pstep =
    PState parser_state
  | PMethod nat
  | PURI "byte list"
  | PVersion "byte list"
  | PHeader "byte list" "byte list"
  | PHeadersComplete
  | PRaise

fun pstep_run :: "env \<Rightarrow> pstep \<Rightarrow> unit action" where
  "pstep_run E (PState s) c = (Ok (), c\<lparr>parser_state := s\<rparr>)"
| "pstep_run E (PMethod m) c = onMethod m c"
| "pstep_run E (PURI u) c = onURI u c"
| "pstep_run E (PVersion v) c = onVersion v c"
| "pstep_run E (PHeader k v) c = onHeader k v c"
| "pstep_run E PHeadersComplete c = dispatchRequest E c"
| "pstep_run E PRaise c = (Raise ParseError, c)"

fun parser_run :: "env \<Rightarrow> pstep list \<Rightarrow> unit action" where
  "parser_run E [] c = (Ok (), c)"
| "parser_run E (s # ss) c = and_then (pstep_run E s c) (\<lambda>_. parser_run E ss)"

subsection \<open>Reading\<close>

text \<open>
  The closure \<^verbatim>\<open>read_body_chunk\<close> of \<^verbatim>\<open>readRequestBody\<close>. It captures the parameter
  \<^verbatim>\<open>callback\<close> by reference: inside \<^verbatim>\<open>readRequestBody\<close> the reference is good
  (\<open>Some callback\<close>); in the copy kept in \<^verbatim>\<open>on_read_completed_cb_\<close> it outlives the
  parameter (\<open>None\<close>).
\<close>

type_synonym chunk_callback = "byte list \<Rightarrow> bool \<Rightarrow> unit action"

definition deliver_chunk :: "chunk_callback option \<Rightarrow> bool \<Rightarrow> unit action" where
  "deliver_chunk callback last_chunk c =
     (case callback of
        None \<Rightarrow> (Raise DanglingReference, c)
      | Some f \<Rightarrow>
          and_then (f (content (body_buf c)) last_chunk
                      (emit (BodyChunk (content (body_buf c)) last_chunk) c))
            (\<lambda>_ c1. if \<not> last_chunk then awaitRead (c1\<lparr>body_buf := clear (body_buf c1)\<rparr>)
                     else ret c1))"

definition read_body_chunk :: "chunk_callback option \<Rightarrow> unit action" where
  "read_body_chunk callback c =
     (case parser_state c of
        S_METHOD \<Rightarrow> (Raise IllegalStateError, c)
      | S_URI \<Rightarrow> (Raise IllegalStateError, c)
      | S_VERSION \<Rightarrow> (Raise IllegalStateError, c)
      | S_HEADER \<Rightarrow> (Raise IllegalStateError, c)
      | S_BODY \<Rightarrow> deliver_chunk callback False c
      | S_DONE \<Rightarrow> deliver_chunk callback True c)"

definition readRequestBody :: "chunk_callback \<Rightarrow> unit action" where
  "readRequestBody callback c =
     read_body_chunk (Some callback) (c\<lparr>on_read_completed_cb := Some ReadBodyChunkCb\<rparr>)"

fun run_read_cb :: "read_cb \<Rightarrow> unit action" where
  "run_read_cb DefaultHeaderCb c =
     (if state_rank (parser_state c) < state_rank S_BODY then awaitRead c else ret c)"
| "run_read_cb ReadBodyChunkCb c = read_body_chunk None c"

text \<open>
  The transport's answer to \<^verbatim>\<open>conn_->read(buf_.data(), buf_.allocSize())\<close>: it throws, or
  it has some bytes, of which at most \<^verbatim>\<open>allocSize\<close> are taken.
\<close>

datatype rx = RxFailed | RxBytes "byte list"

definition read :: "env \<Rightarrow> rx \<Rightarrow> pstep list \<Rightarrow> unit action" where
  "read E r steps c =
     (case r of
        RxFailed \<Rightarrow> close (emit TransportReadFailed c)
      | RxBytes avail \<Rightarrow>
          let data = take (allocSize (buf c)) avail;
              c1 = emit (TransportRead data) (c\<lparr>buf := poke data (buf c)\<rparr>);
              tried =
                (if length data = 0
                 then and_then (parser_run E steps (emit ParserEof c1))
                        (\<lambda>_ c2. and_then (close c2) (\<lambda>_ c3. (Ok True, c3)))
                 else and_then (parser_run E steps (emit (ParserParse data) c1))
                        (\<lambda>_ c2. (Ok False, c2)))
          in case tried of
               (Raise e, c2) \<Rightarrow> if is_exception e then close c2 else (Raise e, c2)
             | (Ok True, c2) \<Rightarrow> (Ok (), c2)
             | (Ok False, c2) \<Rightarrow>
                 and_then
                   (case on_read_completed_cb c2 of
                      None \<Rightarrow> ret c2
                    | Some cb \<Rightarrow> run_read_cb cb (emit (ReadCompleted cb) c2))
                   (\<lambda>_ c3. and_then (decRef c3) (\<lambda>_. ret)))"

subsection \<open>Writing\<close>

definition writeResponse :: "env \<Rightarrow> http_response \<Rightarrow> callback_id option \<Rightarrow> unit action" where
  "writeResponse E resp ready_callback c =
     (let c1 = c\<lparr>buf := clear (buf c)\<rparr>;
          c2 = c1\<lparr>buf := append (generate E resp) (buf c1)\<rparr>;
          c3 = c2\<lparr>on_write_completed_cb := ready_callback\<rparr>
      in awaitWrite c3)"

definition writeResponseBody :: "byte list \<Rightarrow> nat \<Rightarrow> callback_id option \<Rightarrow> unit action" where
  "writeResponseBody data sz ready_callback c = ret c"

definition finishResponse :: "env \<Rightarrow> unit action" where
  "finishResponse E c =
     (case cur_request c of
        None \<Rightarrow> (Raise NullPointer, c)
      | Some r \<Rightarrow> if keepalive E r then nextRequest c else close c)"

text \<open>
  The transport's answer to \<^verbatim>\<open>conn_->write(data, size)\<close>, as a function of the bytes
  offered: it throws, or it reports a number of bytes accepted. \<^verbatim>\<open>write\<close> adds that number
  to the mark in \<^verbatim>\<open>size_t\<close>, whatever the number is.
\<close>

datatype tx = TxFailed | TxLen nat

definition "write" :: "env \<Rightarrow> (byte list \<Rightarrow> tx) \<Rightarrow> unit action" where
  "write E transport c =
     (let data = unconsumed (buf c) in
      case transport data of
        TxFailed \<Rightarrow> close (emit (TransportWriteFailed data) c)
      | TxLen len \<Rightarrow>
          let c1 = emit (TransportWrite data len) c in
          and_then
            (if size_t_add (bmark (buf c1)) len < bsize (buf c1)
             then awaitWrite (c1\<lparr>buf := setMark (size_t_add (bmark (buf c1)) len) (buf c1)\<rparr>)
             else
               let c2 = c1\<lparr>buf := clear (buf c1)\<rparr> in
               case on_write_completed_cb c2 of
                 None \<Rightarrow> ret c2
               | Some k \<Rightarrow> invoke E k (emit (WriteCompleted k) c2))
            (\<lambda>_ c3. and_then (decRef c3) (\<lambda>_. ret)))"

subsection \<open>The scheduler\<close>

text \<open>
  Modelled from the spec: the scheduler is a collaborator with its own source; a callback
  registered with \<^verbatim>\<open>runOnWritable\<close> runs once, when the transport is writable. One wake-up
  runs \<^verbatim>\<open>write\<close> if a callback is registered, and consumes the registration.
\<close>

definition on_writable :: "env \<Rightarrow> (byte list \<Rightarrow> tx) \<Rightarrow> unit action" where
  "on_writable E transport c =
     (if writable_armed c = 0 then ret c
      else write E transport (c\<lparr>writable_armed := writable_armed c - 1\<rparr>))"

definition on_readable :: "env \<Rightarrow> rx \<Rightarrow> pstep list \<Rightarrow> unit action" where
  "on_readable E r steps c =
     (if readable_armed c = 0 then ret c
      else read E r steps (c\<lparr>readable_armed := readable_armed c - 1\<rparr>))"

fun flush :: "env \<Rightarrow> (byte list \<Rightarrow> tx) list \<Rightarrow> unit action" where
  "flush E [] c = ret c"
| "flush E (t # ts) c = and_then (on_writable E t c) (\<lambda>_. flush E ts)"

subsection \<open>Observations on traces and runs\<close>

text \<open>The bytes that the transport accepted, in the order of the calls.\<close>

definition sent_by :: "event \<Rightarrow> byte list" where
  "sent_by e = (case e of TransportWrite data len \<Rightarrow> take len data | _ \<Rightarrow> [])"

definition transmitted :: "event list \<Rightarrow> byte list" where
  "transmitted es = concat (map sent_by es)"

definition is_write :: "event \<Rightarrow> bool" where
  "is_write e = (case e of TransportWrite data len \<Rightarrow> True | _ \<Rightarrow> False)"

text \<open>A transport that accepts \<open>len\<close> bytes whatever it is offered, and one that accepts
  at most \<open>k\<close> bytes of what it is offered.\<close>

definition accepts :: "nat \<Rightarrow> byte list \<Rightarrow> tx" where
  "accepts len data = TxLen len"

definition accepts_up_to :: "nat \<Rightarrow> byte list \<Rightarrow> tx" where
  "accepts_up_to k data = TxLen (min k (length data))"

text \<open>The calls that \<^verbatim>\<open>write\<close> makes while the writes of the lengths \<open>lens\<close> are all
  partial, \<open>data\<close> being the unconsumed bytes at the start.\<close>

fun partial_writes :: "byte list \<Rightarrow> nat list \<Rightarrow> event list" where
  "partial_writes data [] = []"
| "partial_writes data (l # ls) =
     [TransportWrite data l, IncRef, RunOnWritable, DecRef] @ partial_writes (drop l data) ls"

text \<open>What \<^verbatim>\<open>write\<close> does with the write-completion callback once the buffer is flushed.\<close>

definition write_completed :: "env \<Rightarrow> unit action" where
  "write_completed E c =
     (case on_write_completed_cb c of
        None \<Rightarrow> ret c
      | Some k \<Rightarrow> invoke E k (emit (WriteCompleted k) c))"

text \<open>A life of the reference count: calls of \<^verbatim>\<open>incRef\<close> and \<^verbatim>\<open>decRef\<close>, in sequence.\<close>

datatype ref_op = OpIncRef | OpDecRef

fun ref_call :: "ref_op \<Rightarrow> unit action" where
  "ref_call OpIncRef c = incRef c"
| "ref_call OpDecRef c = and_then (decRef c) (\<lambda>_. ret)"

fun ref_calls :: "ref_op list \<Rightarrow> unit action" where
  "ref_calls [] c = ret c"
| "ref_calls (x # xs) c = and_then (ref_call x c) (\<lambda>_. ref_calls xs)"

subsection \<open>A handler that answers with ten bytes\<close>

text \<open>
  An environment for concrete runs: the generator emits the body alone, no request asks
  for keep-alive, the handler answers every request with a ten-byte response and the
  ready callback \<open>0\<close>, which calls \<^verbatim>\<open>finishResponse\<close>.
\<close>

definition idle_env :: env where
  "idle_env =
     \<lparr>generate = resp_body,
      keepalive = (\<lambda>r. False),
      getHandler = (\<lambda>r. 0),
      handleHTTPRequest = (\<lambda>h. ret),
      invoke = (\<lambda>k. ret)\<rparr>"

definition ten_bytes :: "byte list" where
  "ten_bytes = [0, 1, 2, 3, 4, 5, 6, 7, 8, 9]"

definition ten_byte_response :: http_response where
  "ten_byte_response = \<lparr>resp_status = 200, resp_headers = [], resp_body = ten_bytes\<rparr>"

definition demo_env :: env where
  "demo_env =
     idle_env
       \<lparr>handleHTTPRequest := (\<lambda>h. writeResponse idle_env ten_byte_response (Some 0)),
        invoke := (\<lambda>k. finishResponse idle_env)\<rparr>"

definition keepalive_env :: env where
  "keepalive_env = idle_env\<lparr>keepalive := (\<lambda>r. True)\<rparr>"

text \<open>A connection that has read a request and whose handler has called
  \<^verbatim>\<open>writeResponse\<close>: the state after \<^verbatim>\<open>start\<close> and one \<^verbatim>\<open>read\<close>.\<close>

definition request_bytes :: "byte list" where
  "request_bytes = [71, 69, 84, 32, 47, 13, 10, 13, 10]"

definition request_steps :: "pstep list" where
  "request_steps =
     [PMethod 0, PState S_URI, PURI [47], PState S_VERSION, PState S_HEADER,
      PState S_BODY, PHeadersComplete, PState S_DONE]"

definition responding :: conn where
  "responding =
     snd (and_then (start 16) (\<lambda>_. on_readable demo_env (RxBytes request_bytes) request_steps))"

text \<open>The connection that \<^verbatim>\<open>start\<close> leaves, put into the parser state \<open>s\<close> with three
  bytes in the body buffer.\<close>

definition with_body :: "parser_state \<Rightarrow> conn" where
  "with_body s = (snd (start 16))\<lparr>parser_state := s, body_buf := append [1, 2, 3] empty_buffer\<rparr>"

text \<open>
  What holds of a connection after the calls \<open>ops\<close> of \<^verbatim>\<open>incRef\<close> and \<^verbatim>\<open>decRef\<close> that
  followed its construction, none of them made after the deletion: the trace has as many
  \<^verbatim>\<open>incRef\<close> and \<^verbatim>\<open>decRef\<close> as \<open>ops\<close>; a deleted connection has seen one \<^verbatim>\<open>decRef\<close> more
  than \<^verbatim>\<open>incRef\<close>, its count is zero and it was deleted once; a live connection has seen at
  most as many, its count is one plus the difference and it was never deleted.
\<close>

definition ref_inv :: "ref_op list \<Rightarrow> conn \<Rightarrow> bool" where
  "ref_inv ops c =
     (count_list (trace c) IncRef = count_list ops OpIncRef
      \<and> count_list (trace c) DecRef = count_list ops OpDecRef
      \<and> (if deleted c
          then count_list ops OpDecRef = count_list ops OpIncRef + 1
               \<and> refcount c = 0 \<and> count_list (trace c) Delete = 1
          else count_list ops OpDecRef \<le> count_list ops OpIncRef
               \<and> unat (refcount c) = 1 + count_list ops OpIncRef - count_list ops OpDecRef
               \<and> count_list (trace c) Delete = 0))"

section \<open>Document keys\<close>

text \<open>
  A shallow embedding of \<^verbatim>\<open>src/fnordmetric-core/src/ffs/documentkey.cc\<close>. A key is a flag
  and a union of an integer and a pointer to a string on the heap. The heap maps an
  address to the string allocated there; \<^verbatim>\<open>new\<close> takes the next free address.
\<close>

type_synonym address = nat

record heap =
  cells :: "address \<Rightarrow> string option"
  next_free :: address

definition new_string :: "string \<Rightarrow> heap \<Rightarrow> address \<times> heap" where
  "new_string s h =
     (next_free h, h\<lparr>cells := (cells h)(next_free h \<mapsto> s), next_free := next_free h + 1\<rparr>)"

datatype key_union = int_key "64 word" | string_key address

record DocumentKey =
  is_string :: bool
  key :: key_union

text \<open>
  \<open>AssertionFailed\<close> is the \<^verbatim>\<open>assert\<close> of the two getters; \<open>InactiveMember\<close> is reading
  the member of the union that was not stored; \<open>InvalidPointer\<close> is dereferencing an
  address where no string lives.
\<close>

datatype key_error = AssertionFailed | InactiveMember | InvalidPointer

definition DocumentKey_int :: "64 word \<Rightarrow> DocumentKey" where
  "DocumentKey_int k = \<lparr>is_string = False, key = int_key k\<rparr>"

definition DocumentKey_string :: "string \<Rightarrow> heap \<Rightarrow> DocumentKey \<times> heap" where
  "DocumentKey_string s h =
     (case new_string s h of (p, h') \<Rightarrow> (\<lparr>is_string = True, key = string_key p\<rparr>, h'))"

definition DocumentKey_copy :: "DocumentKey \<Rightarrow> heap \<Rightarrow> (key_error + DocumentKey) \<times> heap" where
  "DocumentKey_copy copy h =
     (if is_string copy then
        (case key copy of
           int_key k \<Rightarrow> (Inl InactiveMember, h)
         | string_key p \<Rightarrow>
             (case cells h p of
                None \<Rightarrow> (Inl InvalidPointer, h)
              | Some s \<Rightarrow>
                  (case new_string s h of
                     (q, h') \<Rightarrow> (Inr \<lparr>is_string = True, key = string_key q\<rparr>, h'))))
      else
        (case key copy of
           int_key k \<Rightarrow> (Inr \<lparr>is_string = False, key = int_key k\<rparr>, h)
         | string_key p \<Rightarrow> (Inl InactiveMember, h)))"

definition isIntKey :: "DocumentKey \<Rightarrow> bool" where
  "isIntKey d = (\<not> is_string d)"

definition isStringKey :: "DocumentKey \<Rightarrow> bool" where
  "isStringKey d = is_string d"

definition getIntKey :: "DocumentKey \<Rightarrow> key_error + 64 word" where
  "getIntKey d =
     (if is_string d = False then
        (case key d of int_key k \<Rightarrow> Inr k | string_key p \<Rightarrow> Inl InactiveMember)
      else Inl AssertionFailed)"

definition getStringKey :: "DocumentKey \<Rightarrow> key_error + address" where
  "getStringKey d =
     (if is_string d = True then
        (case key d of string_key p \<Rightarrow> Inr p | int_key k \<Rightarrow> Inl InactiveMember)
      else Inl AssertionFailed)"

text \<open>The expression \<^verbatim>\<open>*d.getStringKey()\<close>.\<close>

definition deref_getStringKey :: "heap \<Rightarrow> DocumentKey \<Rightarrow> key_error + string" where
  "deref_getStringKey h d =
     (case getStringKey d of
        Inl e \<Rightarrow> Inl e
      | Inr p \<Rightarrow> (case cells h p of None \<Rightarrow> Inl InvalidPointer | Some s \<Rightarrow> Inr s))"

text \<open>A key as the constructors leave it: the flag agrees with the member stored, and a
  string key points to a string.\<close>

definition valid_key :: "heap \<Rightarrow> DocumentKey \<Rightarrow> bool" where
  "valid_key h d =
     (case key d of
        int_key k \<Rightarrow> \<not> is_string d
      | string_key p \<Rightarrow> is_string d \<and> cells h p \<noteq> None)"

definition empty_heap :: heap where
  "empty_heap = \<lparr>cells = (\<lambda>p. None), next_free = 1\<rparr>"

section \<open>Properties of the connection\<close>

subsection \<open>The calls on a live connection\<close>

lemma and_then_Ok [simp]: "and_then (Ok x, c) f = f x c"
  by (simp add: and_then_def)

lemma and_then_Raise [simp]: "and_then (Raise e, c) f = (Raise e, c)"
  by (simp add: and_then_def)

lemma and_then_ret [simp]: "and_then r (\<lambda>_. ret) = r"
proof (cases r)
  case (Pair a c)
  then show ?thesis
    by (cases a) (simp_all add: ret_def)
qed

lemma incRef_live:
  "\<not> deleted c \<Longrightarrow>
   incRef c = (Ok (), c\<lparr>refcount := refcount c + 1, trace := trace c @ [IncRef]\<rparr>)"
  by (simp add: incRef_def emit_def)

lemma decRef_live:
  "\<not> deleted c \<Longrightarrow>
   decRef c =
     (if refcount c = 1
      then (Ok True, c\<lparr>refcount := 0, deleted := True, trace := trace c @ [DecRef, Delete]\<rparr>)
      else (Ok False, c\<lparr>refcount := refcount c - 1, trace := trace c @ [DecRef]\<rparr>))"
  by (simp add: decRef_def emit_def Let_def)

lemma decRef_live':
  "\<not> deleted c \<Longrightarrow>
   decRef c =
     (Ok (refcount c = 1),
      c\<lparr>refcount := refcount c - 1, deleted := (refcount c = 1),
        trace := trace c @ DecRef # (if refcount c = 1 then [Delete] else [])\<rparr>)"
  by (simp add: decRef_def emit_def Let_def)

lemma awaitRead_live:
  "\<not> deleted c \<Longrightarrow>
   awaitRead c =
     (Ok (), c\<lparr>refcount := refcount c + 1, readable_armed := readable_armed c + 1,
                trace := trace c @ [IncRef, RunOnReadable]\<rparr>)"
  by (simp add: awaitRead_def incRef_live emit_def)

lemma awaitWrite_live:
  "\<not> deleted c \<Longrightarrow>
   awaitWrite c =
     (Ok (), c\<lparr>refcount := refcount c + 1, writable_armed := writable_armed c + 1,
                trace := trace c @ [IncRef, RunOnWritable]\<rparr>)"
  by (simp add: awaitWrite_def incRef_live emit_def)

lemma close_live:
  "\<not> deleted c \<Longrightarrow>
   close c =
     (if refcount c = 1
      then (Ok (), c\<lparr>refcount := 0, deleted := True,
                     trace := trace c @ [TransportClose, DecRef, Delete]\<rparr>)
      else (Ok (), c\<lparr>refcount := refcount c - 1,
                     trace := trace c @ [TransportClose, DecRef]\<rparr>))"
  by (simp add: close_def decRef_live emit_def ret_def)

lemma close_live':
  "\<not> deleted c \<Longrightarrow>
   close c =
     (Ok (),
      c\<lparr>refcount := refcount c - 1, deleted := (refcount c = 1),
        trace := trace c @ TransportClose # DecRef # (if refcount c = 1 then [Delete] else [])\<rparr>)"
  by (simp add: close_def decRef_live' emit_def ret_def)

lemma close_Raise: "close c = (r, c') \<Longrightarrow> r = Raise x \<Longrightarrow> x = UseAfterFree"
  by (cases "deleted c") (auto simp: close_def decRef_def ret_def Let_def emit_def split: if_splits)

lemma nextRequest_live:
  "\<not> deleted c \<Longrightarrow>
   nextRequest c =
     (Ok (), c\<lparr>parser_state := S_METHOD, cur_request := Some new_HTTPRequest,
                on_write_completed_cb := None, on_read_completed_cb := Some DefaultHeaderCb,
                refcount := refcount c + 1, readable_armed := readable_armed c + 1,
                trace := trace c @ [ParserReset, IncRef, RunOnReadable]\<rparr>)"
  by (simp add: nextRequest_def awaitRead_live emit_def Let_def)

lemma writeResponse_live:
  "\<not> deleted c \<Longrightarrow>
   writeResponse E resp ready_callback c =
     (Ok (), c\<lparr>buf := append (generate E resp) (clear (buf c)),
                on_write_completed_cb := ready_callback,
                refcount := refcount c + 1, writable_armed := writable_armed c + 1,
                trace := trace c @ [IncRef, RunOnWritable]\<rparr>)"
  by (simp add: writeResponse_def awaitWrite_live Let_def)

lemma poke_Nil [simp]: "poke [] b = b"
  by (simp add: poke_def)

lemma setMark_simps [simp]:
  "bmark (setMark p b) = p" "bsize (setMark p b) = bsize b" "region (setMark p b) = region b"
  "setMark p (setMark q b) = setMark p b" "setMark (bmark b) b = b"
  by (simp_all add: setMark_def)

lemma clear_setMark [simp]: "clear (setMark p b) = clear b"
  by (simp add: clear_def setMark_def)

lemma unconsumed_setMark:
  "unconsumed (setMark (bmark b + l) b) = drop l (unconsumed b)"
  by (simp add: unconsumed_def setMark_def add.commute)

lemma length_unconsumed:
  "bsize b \<le> allocSize b \<Longrightarrow> length (unconsumed b) = bsize b - bmark b"
  by (simp add: unconsumed_def allocSize_def)

lemma bsize_fits: "bsize b \<le> allocSize b \<Longrightarrow> bsize b < 2 ^ 64"
  by (simp add: allocSize_def)

lemma size_t_add_fits: "a + b < 2 ^ 64 \<Longrightarrow> size_t_add a b = a + b"
  by (simp add: size_t_add_def)

lemma size_t_add_wraps: "size_t_add 4 (2 ^ 64 - 1) = 3"
  by (simp add: size_t_add_def)

lemma write_failed:
  "transport (unconsumed (buf c)) = TxFailed \<Longrightarrow>
   write E transport c = close (c\<lparr>trace := trace c @ [TransportWriteFailed (unconsumed (buf c))]\<rparr>)"
  by (simp add: write_def emit_def)

lemma write_partial:
  "transport (unconsumed (buf c)) = TxLen len \<Longrightarrow>
   size_t_add (bmark (buf c)) len < bsize (buf c) \<Longrightarrow>
   write E transport c =
     and_then
       (awaitWrite (c\<lparr>trace := trace c @ [TransportWrite (unconsumed (buf c)) len],
                      buf := setMark (size_t_add (bmark (buf c)) len) (buf c)\<rparr>))
       (\<lambda>_ c3. and_then (decRef c3) (\<lambda>_. ret))"
  by (simp add: write_def emit_def Let_def)

lemma write_full:
  "transport (unconsumed (buf c)) = TxLen len \<Longrightarrow>
   \<not> size_t_add (bmark (buf c)) len < bsize (buf c) \<Longrightarrow>
   write E transport c =
     and_then
       (write_completed E
          (c\<lparr>trace := trace c @ [TransportWrite (unconsumed (buf c)) len],
             buf := clear (buf c)\<rparr>))
       (\<lambda>_ c3. and_then (decRef c3) (\<lambda>_. ret))"
  by (simp add: write_def emit_def Let_def write_completed_def)

subsection \<open>Two concrete connections\<close>

lemma start_state:
  "start 16 =
     (Ok (), (HTTPConnection 16)\<lparr>cur_request := Some new_HTTPRequest,
                on_read_completed_cb := Some DefaultHeaderCb,
                refcount := 2, readable_armed := 1,
                trace := [ParserReset, IncRef, RunOnReadable]\<rparr>)"
  by (simp add: start_def nextRequest_live HTTPConnection_def)

lemma responding_state:
  "responding =
     \<lparr>refcount = 2,
      buf = \<lparr>region = ten_bytes @ replicate 6 0, bsize = 10, bmark = 0\<rparr>,
      body_buf = empty_buffer,
      parser_state = S_DONE,
      cur_request = Some \<lparr>req_method = Some 0, req_uri = [47], req_version = [],
                          req_headers = []\<rparr>,
      cur_handler = Some 0,
      on_read_completed_cb = Some DefaultHeaderCb,
      on_write_completed_cb = Some 0,
      deleted = False,
      readable_armed = 0,
      writable_armed = 1,
      trace = [ParserReset, IncRef, RunOnReadable, TransportRead request_bytes,
               ParserParse request_bytes, HandleRequest 0, IncRef, RunOnWritable,
               ReadCompleted DefaultHeaderCb, DecRef]\<rparr>"
  by (simp add: responding_def start_state on_readable_def read_def HTTPConnection_def
      request_steps_def request_bytes_def Let_def emit_def allocSize_def reserve_def
      empty_buffer_def poke_def onMethod_def onURI_def on_request_def new_HTTPRequest_def
      dispatchRequest_def demo_env_def idle_env_def writeResponse_live clear_def
      append_def ten_byte_response_def ten_bytes_def ret_def decRef_live')

subsection \<open>The life of the reference count\<close>

lemma ref_calls_append:
  "ref_calls (xs @ ys) c = and_then (ref_calls xs c) (\<lambda>_. ref_calls ys)"
proof (induction xs arbitrary: c)
  case Nil
  show ?case by (simp add: ret_def)
next
  case (Cons x xs)
  show ?case
  proof (cases "ref_call x c")
    case (Pair r c')
    then show ?thesis
      by (cases r) (simp_all add: Cons.IH)
  qed
qed

lemma ref_calls_Nil: "ref_calls [] = ret"
  by (rule ext) simp

lemma ref_calls_snoc_Ok:
  assumes "ref_calls (xs @ [x]) c = (Ok (), c')"
  obtains c1 where "ref_calls xs c = (Ok (), c1)" "ref_call x c1 = (Ok (), c')"
proof (cases "ref_calls xs c")
  case (Pair r c1)
  with assms show ?thesis
    by (cases r) (simp_all add: ref_calls_append ref_calls_Nil that)
qed

lemma ref_call_Ok_live: "ref_call x c = (Ok (), c') \<Longrightarrow> \<not> deleted c"
  by (cases x) (auto simp: incRef_def decRef_def split: if_splits)

lemma unat_inc:
  fixes w :: "64 word"
  assumes "unat w < 2 ^ 64 - 1"
  shows "unat (w + 1) = unat w + 1"
proof -
  have "unat w + unat (1 :: 64 word) < 2 ^ LENGTH(64)"
    using assms by simp
  then have "unat (w + 1) = unat w + unat (1 :: 64 word)"
    by (simp only: unat_add_lem [THEN iffD1])
  then show ?thesis by simp
qed

lemma unat_dec:
  fixes w :: "64 word"
  assumes "w \<noteq> 0"
  shows "unat (w - 1) = unat w - 1"
  using assms by (rule unat_minus_one)

lemma ref_inv_run:
  assumes "count_list ops OpIncRef < 2 ^ 64 - 1"
    and "ref_calls ops (HTTPConnection k) = (Ok (), c)"
  shows "ref_inv ops c"
  using assms
proof (induction ops arbitrary: c rule: rev_induct)
  case Nil
  then show ?case
    by (auto simp: ref_inv_def ret_def HTTPConnection_def)
next
  case (snoc x xs)
  from snoc.prems(2) obtain c1
    where run: "ref_calls xs (HTTPConnection k) = (Ok (), c1)" and call: "ref_call x c1 = (Ok (), c)"
    by (rule ref_calls_snoc_Ok)
  from call have live: "\<not> deleted c1"
    by (rule ref_call_Ok_live)
  from snoc.prems(1) have "count_list xs OpIncRef < 2 ^ 64 - 1"
    by (simp split: if_splits)
  then have inv: "ref_inv xs c1"
    using run by (rule snoc.IH)
  with live have le: "count_list xs OpDecRef \<le> count_list xs OpIncRef"
    and rc: "unat (refcount c1) = 1 + count_list xs OpIncRef - count_list xs OpDecRef"
    and tr: "count_list (trace c1) IncRef = count_list xs OpIncRef"
      "count_list (trace c1) DecRef = count_list xs OpDecRef"
      "count_list (trace c1) Delete = 0"
    by (simp_all add: ref_inv_def)
  show ?case
  proof (cases x)
    case OpIncRef
    with snoc.prems(1) have "unat (refcount c1) < 2 ^ 64 - 1"
      using rc le by simp
    then have "unat (refcount c1 + 1) = unat (refcount c1) + 1"
      by (rule unat_inc)
    moreover from call OpIncRef live
    have "c = c1\<lparr>refcount := refcount c1 + 1, trace := trace c1 @ [IncRef]\<rparr>"
      by (simp add: incRef_live)
    ultimately show ?thesis
      using OpIncRef le rc tr live by (simp add: ref_inv_def)
  next
    case OpDecRef
    with call live
    have c: "c = c1\<lparr>refcount := refcount c1 - 1, deleted := (refcount c1 = 1),
                    trace := trace c1 @ DecRef # (if refcount c1 = 1 then [Delete] else [])\<rparr>"
      by (auto simp: decRef_live' ret_def)
    show ?thesis
    proof (cases "refcount c1 = 1")
      case True
      with rc le have "count_list xs OpDecRef = count_list xs OpIncRef"
        by simp
      with c True OpDecRef tr show ?thesis
        by (simp add: ref_inv_def)
    next
      case False
      from rc le have "unat (refcount c1) \<noteq> 0"
        by simp
      then have nz: "refcount c1 \<noteq> 0"
        by (simp add: unat_eq_0)
      then have dec: "unat (refcount c1 - 1) = unat (refcount c1) - 1"
        by (rule unat_dec)
      from False have "unat (refcount c1) \<noteq> 1"
        by (simp add: word_unat_eq_iff)
      with rc le have "count_list xs OpDecRef < count_list xs OpIncRef"
        by simp
      with c False OpDecRef tr rc dec show ?thesis
        by (simp add: ref_inv_def)
    qed
  qed
qed

text \<open>
  Claim C1, as the code has it. Take any sequence of calls of \<^verbatim>\<open>incRef\<close> and \<^verbatim>\<open>decRef\<close> on a
  connection fresh from the constructor, with fewer than \<open>2 ^ 64 - 1\<close> calls of \<^verbatim>\<open>incRef\<close>,
  each call returning (none is made on the deleted object). The trace then has one
  \<^verbatim>\<open>incRef\<close> and one \<^verbatim>\<open>decRef\<close> for each call. The connection is deleted if and only if the
  number of \<^verbatim>\<open>decRef\<close> calls is the number of \<^verbatim>\<open>incRef\<close> calls plus one, the one being the
  reference that the constructor starts with. It is deleted at most once. If it is
  deleted, the count is zero, the last call was a \<^verbatim>\<open>decRef\<close> on a live connection whose
  count was one, and any further call is a use after free. If it is not deleted, there
  were at most as many \<^verbatim>\<open>decRef\<close> as \<^verbatim>\<open>incRef\<close> calls, the count is one plus the difference,
  and the next \<^verbatim>\<open>decRef\<close> deletes the connection exactly when the count is one.
\<close>

theorem refcount_lifetime:
  assumes bound: "count_list ops OpIncRef < 2 ^ 64 - 1"
    and run: "ref_calls ops (HTTPConnection k) = (Ok (), c)"
  shows "count_list (trace c) IncRef = count_list ops OpIncRef
         \<and> count_list (trace c) DecRef = count_list ops OpDecRef
         \<and> deleted c = (count_list ops OpDecRef = count_list ops OpIncRef + 1)
         \<and> count_list (trace c) Delete = (if deleted c then 1 else 0)
         \<and> (deleted c \<longrightarrow>
              refcount c = 0
              \<and> (\<exists>ops' c'. ops = ops' @ [OpDecRef]
                    \<and> ref_calls ops' (HTTPConnection k) = (Ok (), c')
                    \<and> \<not> deleted c' \<and> refcount c' = 1)
              \<and> ref_calls (ops @ [x]) (HTTPConnection k) = (Raise UseAfterFree, c))
         \<and> (\<not> deleted c \<longrightarrow>
              count_list ops OpDecRef \<le> count_list ops OpIncRef
              \<and> unat (refcount c) = 1 + count_list ops OpIncRef - count_list ops OpDecRef
              \<and> deleted (snd (decRef c)) = (refcount c = 1))"
proof -
  from bound run have inv: "ref_inv ops c"
    by (rule ref_inv_run)
  have last: "\<exists>ops' c'. ops = ops' @ [OpDecRef]
                    \<and> ref_calls ops' (HTTPConnection k) = (Ok (), c')
                    \<and> \<not> deleted c' \<and> refcount c' = 1"
    if del: "deleted c"
  proof (cases ops rule: rev_cases)
    case Nil
    with run del show ?thesis
      by (auto simp: ret_def HTTPConnection_def)
  next
    case (snoc xs y)
    with run obtain c1
      where r1: "ref_calls xs (HTTPConnection k) = (Ok (), c1)"
        and call: "ref_call y c1 = (Ok (), c)"
      by (auto elim: ref_calls_snoc_Ok)
    from call have live: "\<not> deleted c1"
      by (rule ref_call_Ok_live)
    show ?thesis
    proof (cases y)
      case OpIncRef
      with call live del show ?thesis
        by (auto simp: incRef_live)
    next
      case OpDecRef
      with call live del have "refcount c1 = 1"
        by (auto simp: decRef_live' ret_def)
      with snoc OpDecRef r1 live show ?thesis
        by blast
    qed
  qed
  have after: "ref_calls (ops @ [x]) (HTTPConnection k) = (Raise UseAfterFree, c)"
    if "deleted c"
    using that run by (cases x) (simp_all add: ref_calls_append incRef_def decRef_def)
  have dec: "deleted (snd (decRef c)) = (refcount c = 1)" if "\<not> deleted c"
    using that by (simp add: decRef_live')
  from inv last after dec show ?thesis
    by (auto simp: ref_inv_def)
qed

theorem refcount_lifetime_witness:
  "count_list [OpIncRef, OpIncRef, OpDecRef, OpDecRef, OpDecRef] OpIncRef < (2 :: nat) ^ 64 - 1
   \<and> ref_calls [OpIncRef, OpIncRef, OpDecRef, OpDecRef, OpDecRef] (HTTPConnection 16) =
       (Ok (), (HTTPConnection 16)
          \<lparr>refcount := 0, deleted := True,
            trace := [IncRef, IncRef, DecRef, DecRef, DecRef, Delete]\<rparr>)
   \<and> count_list [OpIncRef, OpIncRef, OpDecRef, OpDecRef, OpDecRef] OpDecRef =
       count_list [OpIncRef, OpIncRef, OpDecRef, OpDecRef, OpDecRef] OpIncRef + 1
   \<and> ref_calls ([OpIncRef, OpIncRef, OpDecRef, OpDecRef, OpDecRef] @ [OpIncRef])
        (HTTPConnection 16) =
       (Raise UseAfterFree, (HTTPConnection 16)
          \<lparr>refcount := 0, deleted := True,
            trace := [IncRef, IncRef, DecRef, DecRef, DecRef, Delete]\<rparr>)
   \<and> ref_calls [OpIncRef, OpDecRef] (HTTPConnection 16) =
       (Ok (), (HTTPConnection 16)\<lparr>refcount := 1, trace := [IncRef, DecRef]\<rparr>)
   \<and> unat (refcount ((HTTPConnection 16)\<lparr>refcount := 1, trace := [IncRef, DecRef]\<rparr>)) = 1"
proof -
  let ?dead = "(HTTPConnection 16)
          \<lparr>refcount := 0, deleted := True,
            trace := [IncRef, IncRef, DecRef, DecRef, DecRef, Delete]\<rparr>"
  let ?live = "(HTTPConnection 16)\<lparr>refcount := 1, trace := [IncRef, DecRef]\<rparr>"
  have b1: "count_list [OpIncRef, OpIncRef, OpDecRef, OpDecRef, OpDecRef] OpIncRef
              < (2 :: nat) ^ 64 - 1"
    and b2: "count_list [OpIncRef, OpDecRef] OpIncRef < (2 :: nat) ^ 64 - 1"
    by simp_all
  have r1: "ref_calls [OpIncRef, OpIncRef, OpDecRef, OpDecRef, OpDecRef] (HTTPConnection 16) =
              (Ok (), ?dead)"
    and r2: "ref_calls [OpIncRef, OpDecRef] (HTTPConnection 16) = (Ok (), ?live)"
    by (simp_all add: incRef_def decRef_def HTTPConnection_def emit_def ret_def Let_def)
  have d: "deleted ?dead" "\<not> deleted ?live"
    by (simp_all add: HTTPConnection_def)
  from refcount_lifetime [OF b1 r1, of OpIncRef] refcount_lifetime [OF b2 r2, of OpIncRef]
    b1 r1 r2 d
  show ?thesis
    by simp
qed

subsection \<open>Flushing the write buffer\<close>

lemma flush_append:
  "flush E (ts @ us) c = and_then (flush E ts c) (\<lambda>_. flush E us)"
proof (induction ts arbitrary: c)
  case Nil
  show ?case by (simp add: ret_def)
next
  case (Cons t ts)
  show ?case
  proof (cases "on_writable E t c")
    case (Pair r c')
    then show ?thesis
      by (cases r) (simp_all add: Cons.IH)
  qed
qed

lemma flush_Nil: "flush E [] = ret"
  by (rule ext) simp

lemma flush_idle: "writable_armed c = 0 \<Longrightarrow> flush E ts c = (Ok (), c)"
  by (induction ts) (simp_all add: ret_def on_writable_def)

lemma on_writable_partial:
  assumes "\<not> deleted c" "refcount c \<noteq> 0" "0 < writable_armed c"
    and "bmark (buf c) + l < bsize (buf c)" and "bsize (buf c) < 2 ^ 64"
  shows "on_writable E (accepts l) c =
           (Ok (), c\<lparr>buf := setMark (bmark (buf c) + l) (buf c),
                      trace := trace c @ [TransportWrite (unconsumed (buf c)) l, IncRef,
                                          RunOnWritable, DecRef]\<rparr>)"
proof -
  have "refcount c + 1 \<noteq> 1"
    using assms(2) by simp
  moreover have "size_t_add (bmark (buf c)) l = bmark (buf c) + l"
    using assms(4,5) by (simp add: size_t_add_fits)
  ultimately show ?thesis
    using assms(1,3,4)
    by (simp add: on_writable_def write_partial accepts_def awaitWrite_live decRef_live'
        ret_def conn.equality)
qed

lemma flush_partial:
  assumes "\<not> deleted c" "refcount c \<noteq> 0" "0 < writable_armed c"
    and "bmark (buf c) + sum_list ps < bsize (buf c)" and "bsize (buf c) < 2 ^ 64"
  shows "flush E (map accepts ps) c =
           (Ok (), c\<lparr>buf := setMark (bmark (buf c) + sum_list ps) (buf c),
                      trace := trace c @ partial_writes (unconsumed (buf c)) ps\<rparr>)"
  using assms
proof (induction ps arbitrary: c)
  case Nil
  show ?case
    by (simp add: ret_def)
next
  case (Cons l ps)
  let ?c = "c\<lparr>buf := setMark (bmark (buf c) + l) (buf c),
              trace := trace c @ [TransportWrite (unconsumed (buf c)) l, IncRef,
                                  RunOnWritable, DecRef]\<rparr>"
  from Cons.prems have "bmark (buf c) + l < bsize (buf c)"
    by simp
  with Cons.prems have step: "on_writable E (accepts l) c = (Ok (), ?c)"
    by (simp add: on_writable_partial)
  have "flush E (map accepts ps) ?c =
          (Ok (), ?c\<lparr>buf := setMark (bmark (buf ?c) + sum_list ps) (buf ?c),
                      trace := trace ?c @ partial_writes (unconsumed (buf ?c)) ps\<rparr>)"
    using Cons.prems by (intro Cons.IH) (simp_all add: add.assoc)
  then show ?case
    by (simp add: step unconsumed_setMark add.assoc)
qed

lemma on_writable_full:
  assumes "0 < writable_armed c" "bmark (buf c) + l = bsize (buf c)" "bsize (buf c) < 2 ^ 64"
  shows "on_writable E (accepts l) c =
           and_then
             (write_completed E
                (c\<lparr>writable_armed := writable_armed c - 1,
                   trace := trace c @ [TransportWrite (unconsumed (buf c)) l],
                   buf := clear (buf c)\<rparr>))
             (\<lambda>_ c3. and_then (decRef c3) (\<lambda>_. ret))"
proof -
  have "\<not> size_t_add (bmark (buf c)) l < bsize (buf c)"
    using assms(2,3) by (simp add: size_t_add_fits)
  with assms(1) show ?thesis
    by (simp add: on_writable_def write_full accepts_def)
qed

lemma flush_complete:
  assumes "\<not> deleted c" "refcount c \<noteq> 0" "0 < writable_armed c"
    and "bmark (buf c) + sum_list ps < bsize (buf c)"
    and "bmark (buf c) + sum_list ps + l = bsize (buf c)"
    and "bsize (buf c) < 2 ^ 64"
  shows "flush E (map accepts (ps @ [l])) c =
           and_then
             (write_completed E
                (c\<lparr>writable_armed := writable_armed c - 1,
                   trace := trace c @ partial_writes (unconsumed (buf c)) ps
                              @ [TransportWrite (drop (sum_list ps) (unconsumed (buf c))) l],
                   buf := clear (buf c)\<rparr>))
             (\<lambda>_ c3. and_then (decRef c3) (\<lambda>_. ret))"
proof -
  let ?c = "c\<lparr>buf := setMark (bmark (buf c) + sum_list ps) (buf c),
              trace := trace c @ partial_writes (unconsumed (buf c)) ps\<rparr>"
  have "flush E (map accepts (ps @ [l])) c = on_writable E (accepts l) ?c"
    using assms(1-4,6) by (simp add: flush_append flush_partial flush_Nil)
  also have "\<dots> =
           and_then
             (write_completed E
                (?c\<lparr>writable_armed := writable_armed ?c - 1,
                   trace := trace ?c @ [TransportWrite (unconsumed (buf ?c)) l],
                   buf := clear (buf ?c)\<rparr>))
             (\<lambda>_ c3. and_then (decRef c3) (\<lambda>_. ret))"
    using assms(3,5,6) by (intro on_writable_full) simp_all
  finally show ?thesis
    by (simp add: unconsumed_setMark)
qed

lemma transmitted_simps [simp]:
  "transmitted [] = []"
  "transmitted (TransportWrite data len # es) = take len data @ transmitted es"
  "transmitted (IncRef # es) = transmitted es"
  "transmitted (DecRef # es) = transmitted es"
  "transmitted (RunOnWritable # es) = transmitted es"
  "transmitted (es @ fs) = transmitted es @ transmitted fs"
  by (simp_all add: transmitted_def sent_by_def)

lemma transmitted_partial_writes:
  "transmitted (partial_writes data ps) = take (sum_list ps) data"
proof (induction ps arbitrary: data)
  case Nil
  show ?case by simp
next
  case (Cons l ps)
  then show ?case
    by (simp add: take_add)
qed

lemma transmitted_flush:
  "length data \<le> sum_list ps + l \<Longrightarrow>
   transmitted (partial_writes data ps @ [TransportWrite (drop (sum_list ps) data) l]) = data"
  by (simp add: transmitted_partial_writes flip: take_add)

lemma sum_list_take_le: "sum_list (take n ps) \<le> sum_list (ps :: nat list)"
proof -
  have "sum_list ps = sum_list (take n ps) + sum_list (drop n ps)"
    by (metis append_take_drop_id sum_list_append)
  then show ?thesis by simp
qed

lemma filter_is_write_simps [simp]:
  "is_write (TransportWrite data len)" "\<not> is_write IncRef" "\<not> is_write DecRef"
  "\<not> is_write RunOnWritable" "\<not> is_write RunOnReadable" "\<not> is_write Delete"
  "\<not> is_write TransportClose" "\<not> is_write (WriteCompleted k)" "\<not> is_write ParserReset"
  "\<not> is_write (TransportRead data)" "\<not> is_write (ParserParse data)"
  "\<not> is_write (HandleRequest h)" "\<not> is_write (ReadCompleted cb)"
  by (simp_all add: is_write_def)

lemma three_wakeups: "replicate 3 t = [t, t, t]"
  by (simp add: numeral_3_eq_3)

lemma two_wakeups: "replicate 2 t = [t, t]"
  by (simp add: numeral_2_eq_2)

lemma ten_byte_flush:
  "flush demo_env (replicate (3 + m) (accepts_up_to 4)) responding =
     (Ok (), responding
        \<lparr>refcount := 0, buf := clear (buf responding), deleted := True, writable_armed := 0,
          trace := trace responding @
            [TransportWrite ten_bytes 4, IncRef, RunOnWritable, DecRef,
             TransportWrite (drop 4 ten_bytes) 4, IncRef, RunOnWritable, DecRef,
             TransportWrite (drop 8 ten_bytes) 2, WriteCompleted 0,
             TransportClose, DecRef, DecRef, Delete]\<rparr>)"
proof -
  have "flush demo_env (replicate 3 (accepts_up_to 4)) responding =
     (Ok (), responding
        \<lparr>refcount := 0, buf := clear (buf responding), deleted := True, writable_armed := 0,
          trace := trace responding @
            [TransportWrite ten_bytes 4, IncRef, RunOnWritable, DecRef,
             TransportWrite (drop 4 ten_bytes) 4, IncRef, RunOnWritable, DecRef,
             TransportWrite (drop 8 ten_bytes) 2, WriteCompleted 0,
             TransportClose, DecRef, DecRef, Delete]\<rparr>)"
    unfolding three_wakeups
    by (simp add: responding_state on_writable_def write_def accepts_up_to_def
        size_t_add_def
        unconsumed_def Let_def emit_def awaitWrite_live decRef_live' ten_bytes_def
        setMark_def clear_def demo_env_def idle_env_def finishResponse_def close_live'
        ret_def)
  then show ?thesis
    by (simp add: replicate_add flush_append flush_idle)
qed

text \<open>
  Claim C1 as stated says that the calls of \<^verbatim>\<open>incRef\<close> and of \<^verbatim>\<open>decRef\<close> are equally many
  over the life of a connection. The connection that is started, reads one request,
  answers it with ten bytes through a transport taking four bytes a call, and closes, is
  deleted once after four calls of \<^verbatim>\<open>incRef\<close> and five of \<^verbatim>\<open>decRef\<close>.
\<close>

theorem refcount_calls_differ:
  "fst (flush demo_env (replicate 3 (accepts_up_to 4)) responding) = Ok ()
   \<and> deleted (snd (flush demo_env (replicate 3 (accepts_up_to 4)) responding))
   \<and> count_list (trace (snd (flush demo_env (replicate 3 (accepts_up_to 4)) responding))) Delete = 1
   \<and> count_list (trace (snd (flush demo_env (replicate 3 (accepts_up_to 4)) responding))) IncRef = 4
   \<and> count_list (trace (snd (flush demo_env (replicate 3 (accepts_up_to 4)) responding))) DecRef = 5
   \<and> count_list (trace (snd (flush demo_env (replicate 3 (accepts_up_to 4)) responding))) IncRef
       \<noteq> count_list (trace (snd (flush demo_env (replicate 3 (accepts_up_to 4)) responding))) DecRef"
  using ten_byte_flush [of 0] by (simp add: responding_state)

text \<open>
  Claim C2. Let a live connection with at least one reference have a write registered and
  a buffer whose size is within its capacity (a \<^verbatim>\<open>size_t\<close>), and let the transport accept the lengths \<open>ps\<close> and then
  \<open>l\<close>, where the mark plus the sum of \<open>ps\<close> is below the size and the mark plus the sum of
  \<open>ps\<close> plus \<open>l\<close> is the size. After the first \<open>n\<close> writes, for every \<open>n\<close>, the mark has
  advanced by exactly the bytes accepted so far and is below the size, the buffer is
  otherwise unchanged, and each write was followed by \<^verbatim>\<open>incRef\<close>, a registration with the
  scheduler and \<^verbatim>\<open>decRef\<close>. The write of \<open>l\<close> clears the buffer and hands the connection to
  the write-completion callback, after which \<^verbatim>\<open>decRef\<close> is called. The bytes that the
  transport accepted over all the writes, concatenated, are the unconsumed bytes of the
  buffer, which with the mark at zero are its content. The connection whose handler
  answered with ten bytes, flushed through a transport accepting at most four bytes a
  call, makes exactly three writes, of four, four and two bytes, and then calls the ready
  callback, however often the scheduler wakes it after that; after two wake-ups the
  callback has not been called.
\<close>

theorem write_flushes_buffer:
  assumes live: "\<not> deleted c" and refs: "refcount c \<noteq> 0" and armed: "0 < writable_armed c"
    and cap: "bsize (buf c) \<le> allocSize (buf c)"
    and partial: "bmark (buf c) + sum_list ps < bsize (buf c)"
    and full: "bmark (buf c) + sum_list ps + l = bsize (buf c)"
  shows "flush E (map accepts (take n ps)) c =
           (Ok (), c\<lparr>buf := setMark (bmark (buf c) + sum_list (take n ps)) (buf c),
                      trace := trace c @ partial_writes (unconsumed (buf c)) (take n ps)\<rparr>)
         \<and> bmark (buf c) + sum_list (take n ps) < bsize (buf c)
         \<and> flush E (map accepts (ps @ [l])) c =
             and_then
               (write_completed E
                  (c\<lparr>writable_armed := writable_armed c - 1,
                     trace := trace c @ partial_writes (unconsumed (buf c)) ps
                                @ [TransportWrite (drop (sum_list ps) (unconsumed (buf c))) l],
                     buf := clear (buf c)\<rparr>))
               (\<lambda>_ c3. and_then (decRef c3) (\<lambda>_. ret))
         \<and> transmitted
               (partial_writes (unconsumed (buf c)) ps
                  @ [TransportWrite (drop (sum_list ps) (unconsumed (buf c))) l])
             = unconsumed (buf c)
         \<and> unconsumed (buf c) = drop (bmark (buf c)) (content (buf c))
         \<and> content (buf responding) = ten_bytes \<and> bmark (buf responding) = 0
         \<and> flush demo_env (replicate (3 + m) (accepts_up_to 4)) responding =
             (Ok (), responding
                \<lparr>refcount := 0, buf := clear (buf responding), deleted := True,
                  writable_armed := 0,
                  trace := trace responding @
                    [TransportWrite ten_bytes 4, IncRef, RunOnWritable, DecRef,
                     TransportWrite (drop 4 ten_bytes) 4, IncRef, RunOnWritable, DecRef,
                     TransportWrite (drop 8 ten_bytes) 2, WriteCompleted 0,
                     TransportClose, DecRef, DecRef, Delete]\<rparr>)
         \<and> trace (snd (flush demo_env (replicate 2 (accepts_up_to 4)) responding)) =
             trace responding @
               [TransportWrite ten_bytes 4, IncRef, RunOnWritable, DecRef,
                TransportWrite (drop 4 ten_bytes) 4, IncRef, RunOnWritable, DecRef]"
proof -
  have le: "sum_list (take n ps) \<le> sum_list ps"
    by (rule sum_list_take_le)
  with partial have part: "bmark (buf c) + sum_list (take n ps) < bsize (buf c)"
    by simp
  from cap have fits: "bsize (buf c) < 2 ^ 64"
    by (rule bsize_fits)
  from live refs armed part fits
  have a: "flush E (map accepts (take n ps)) c =
           (Ok (), c\<lparr>buf := setMark (bmark (buf c) + sum_list (take n ps)) (buf c),
                      trace := trace c @ partial_writes (unconsumed (buf c)) (take n ps)\<rparr>)"
    by (rule flush_partial)
  from live refs armed partial full fits
  have b: "flush E (map accepts (ps @ [l])) c =
             and_then
               (write_completed E
                  (c\<lparr>writable_armed := writable_armed c - 1,
                     trace := trace c @ partial_writes (unconsumed (buf c)) ps
                                @ [TransportWrite (drop (sum_list ps) (unconsumed (buf c))) l],
                     buf := clear (buf c)\<rparr>))
               (\<lambda>_ c3. and_then (decRef c3) (\<lambda>_. ret))"
    by (rule flush_complete)
  from cap full have "length (unconsumed (buf c)) \<le> sum_list ps + l"
    by (simp add: length_unconsumed)
  then have t: "transmitted
               (partial_writes (unconsumed (buf c)) ps
                  @ [TransportWrite (drop (sum_list ps) (unconsumed (buf c))) l])
             = unconsumed (buf c)"
    by (rule transmitted_flush)
  have u: "unconsumed (buf c) = drop (bmark (buf c)) (content (buf c))"
    by (simp add: unconsumed_def content_def)
  have r: "content (buf responding) = ten_bytes" "bmark (buf responding) = 0"
    by (simp_all add: responding_state content_def ten_bytes_def)
  have two: "trace (snd (flush demo_env (replicate 2 (accepts_up_to 4)) responding)) =
             trace responding @
               [TransportWrite ten_bytes 4, IncRef, RunOnWritable, DecRef,
                TransportWrite (drop 4 ten_bytes) 4, IncRef, RunOnWritable, DecRef]"
    unfolding two_wakeups
    by (simp add: responding_state on_writable_def write_def accepts_up_to_def
        size_t_add_def
        unconsumed_def Let_def emit_def awaitWrite_live decRef_live' ten_bytes_def
        setMark_def ret_def)
  from a part b t u r two show ?thesis
    by (simp only: ten_byte_flush simp_thms)
qed

theorem write_flushes_buffer_witness:
  "\<not> deleted responding \<and> refcount responding \<noteq> 0 \<and> 0 < writable_armed responding
   \<and> bsize (buf responding) \<le> allocSize (buf responding)
   \<and> bmark (buf responding) + sum_list [4, 4] < bsize (buf responding)
   \<and> bmark (buf responding) + sum_list [4, 4] + 2 = bsize (buf responding)
   \<and> bmark (buf (snd (flush idle_env (map accepts (take 1 [4, 4])) responding))) = 4
   \<and> flush demo_env (map accepts ([4, 4] @ [2])) responding =
       flush demo_env (replicate 3 (accepts_up_to 4)) responding
   \<and> transmitted (trace (snd (flush demo_env (map accepts ([4, 4] @ [2])) responding))) =
       ten_bytes
   \<and> filter is_write (trace (snd (flush demo_env (map accepts ([4, 4] @ [2])) responding))) =
       [TransportWrite ten_bytes 4, TransportWrite (drop 4 ten_bytes) 4,
        TransportWrite (drop 8 ten_bytes) 2]"
proof -
  have h: "\<not> deleted responding" "refcount responding \<noteq> 0" "0 < writable_armed responding"
    "bsize (buf responding) \<le> allocSize (buf responding)"
    "bmark (buf responding) + sum_list [4, 4] < bsize (buf responding)"
    "bmark (buf responding) + sum_list [4, 4] + 2 = bsize (buf responding)"
    by (simp_all add: responding_state allocSize_def ten_bytes_def)
  have w: "write_completed demo_env
             (responding
                \<lparr>writable_armed := writable_armed responding - 1,
                  trace := trace responding @ partial_writes (unconsumed (buf responding)) [4, 4]
                    @ [TransportWrite (drop (sum_list [4, 4]) (unconsumed (buf responding))) 2],
                  buf := clear (buf responding)\<rparr>)
           = (Ok (), responding
                \<lparr>refcount := 1, writable_armed := 0,
                  trace := trace responding @
                    [TransportWrite ten_bytes 4, IncRef, RunOnWritable, DecRef,
                     TransportWrite (drop 4 ten_bytes) 4, IncRef, RunOnWritable, DecRef,
                     TransportWrite (drop 8 ten_bytes) 2, WriteCompleted 0,
                     TransportClose, DecRef],
                  buf := clear (buf responding)\<rparr>)"
    by (simp add: write_completed_def responding_state demo_env_def idle_env_def emit_def
        finishResponse_def close_live' unconsumed_def ten_bytes_def)
  note th = write_flushes_buffer [OF h, where n = 1 and m = 0]
  note part = th [where E = idle_env, THEN conjunct1]
  note full = th [where E = demo_env, THEN conjunct2, THEN conjunct2, THEN conjunct1]
  note mark0 = th [where E = demo_env, THEN conjunct2, THEN conjunct2, THEN conjunct2,
      THEN conjunct2, THEN conjunct2, THEN conjunct2, THEN conjunct1]
  have plus0: "(3 :: nat) + 0 = 3"
    by simp
  note capped = th [where E = demo_env, THEN conjunct2, THEN conjunct2, THEN conjunct2,
      THEN conjunct2, THEN conjunct2, THEN conjunct2, THEN conjunct2, THEN conjunct1,
      unfolded plus0]
  have one: "bmark (buf (snd (flush idle_env (map accepts (take 1 [4, 4])) responding))) = 4"
    unfolding part by (simp add: mark0)
  have three:
    "flush demo_env (map accepts ([4, 4] @ [2])) responding =
       flush demo_env (replicate 3 (accepts_up_to 4)) responding"
    unfolding full w capped using h(1) by (simp add: decRef_live' ret_def conn.equality)
  from capped have "flush demo_env (replicate 3 (accepts_up_to 4)) responding =
             (Ok (), responding
                \<lparr>refcount := 0, buf := clear (buf responding), deleted := True,
                  writable_armed := 0,
                  trace := trace responding @
                    [TransportWrite ten_bytes 4, IncRef, RunOnWritable, DecRef,
                     TransportWrite (drop 4 ten_bytes) 4, IncRef, RunOnWritable, DecRef,
                     TransportWrite (drop 8 ten_bytes) 2, WriteCompleted 0,
                     TransportClose, DecRef, DecRef, Delete]\<rparr>)"
    by simp
  with three have tr: "trace (snd (flush demo_env (map accepts ([4, 4] @ [2])) responding)) =
      trace responding @
                    [TransportWrite ten_bytes 4, IncRef, RunOnWritable, DecRef,
                     TransportWrite (drop 4 ten_bytes) 4, IncRef, RunOnWritable, DecRef,
                     TransportWrite (drop 8 ten_bytes) 2, WriteCompleted 0,
                     TransportClose, DecRef, DecRef, Delete]"
    by simp
  have sent: "transmitted (trace (snd (flush demo_env (map accepts ([4, 4] @ [2])) responding))) =
       ten_bytes"
    unfolding tr by (simp add: responding_state transmitted_def sent_by_def ten_bytes_def)
  have writes: "filter is_write
       (trace (snd (flush demo_env (map accepts ([4, 4] @ [2])) responding))) =
       [TransportWrite ten_bytes 4, TransportWrite (drop 4 ten_bytes) 4,
        TransportWrite (drop 8 ten_bytes) 2]"
    unfolding tr by (simp add: responding_state)
  from h one three sent writes show ?thesis
    by (simp only: simp_thms)
qed

subsection \<open>Finishing a response\<close>

text \<open>
  Claim C4. On a live connection with a current request, \<^verbatim>\<open>finishResponse\<close> is the call
  of \<^verbatim>\<open>nextRequest\<close> if and only if the request's keep-alive flag is set, and it is the
  call of \<^verbatim>\<open>close\<close> if and only if the flag is not set. \<^verbatim>\<open>nextRequest\<close> succeeds, registers
  one more read with the scheduler and does not close the transport: it adds the parser's
  reset, \<^verbatim>\<open>incRef\<close> and the registration to the trace. \<^verbatim>\<open>close\<close> succeeds, closes the
  transport and registers no read: it adds the transport's close and \<^verbatim>\<open>decRef\<close> (and the
  deletion, if that was the last reference) to the trace.
\<close>

theorem finishResponse_keepalive:
  assumes "cur_request c = Some r" and "\<not> deleted c"
  shows "(finishResponse E c = nextRequest c) = keepalive E r
         \<and> (finishResponse E c = close c) = (\<not> keepalive E r)
         \<and> fst (nextRequest c) = Ok ()
         \<and> trace (snd (nextRequest c)) = trace c @ [ParserReset, IncRef, RunOnReadable]
         \<and> readable_armed (snd (nextRequest c)) = readable_armed c + 1
         \<and> fst (close c) = Ok ()
         \<and> trace (snd (close c)) =
             trace c @ [TransportClose, DecRef] @ (if refcount c = 1 then [Delete] else [])
         \<and> readable_armed (snd (close c)) = readable_armed c"
proof -
  have n: "trace (snd (nextRequest c)) = trace c @ [ParserReset, IncRef, RunOnReadable]"
    using assms(2) by (simp add: nextRequest_live)
  have k: "trace (snd (close c)) =
             trace c @ [TransportClose, DecRef] @ (if refcount c = 1 then [Delete] else [])"
    using assms(2) by (simp add: close_live)
  from n k have "trace (snd (nextRequest c)) \<noteq> trace (snd (close c))"
    by simp
  then have ne: "nextRequest c \<noteq> close c"
    by auto
  have f: "finishResponse E c = (if keepalive E r then nextRequest c else close c)"
    using assms(1) by (simp add: finishResponse_def)
  from f ne have "(finishResponse E c = nextRequest c) = keepalive E r"
    and "(finishResponse E c = close c) = (\<not> keepalive E r)"
    by auto
  moreover have "fst (nextRequest c) = Ok ()"
    "readable_armed (snd (nextRequest c)) = readable_armed c + 1"
    using assms(2) by (simp_all add: nextRequest_live)
  moreover have "fst (close c) = Ok ()" "readable_armed (snd (close c)) = readable_armed c"
    using assms(2) by (simp_all add: close_live)
  ultimately show ?thesis
    using n k by simp
qed

theorem finishResponse_keepalive_witness:
  "cur_request (snd (start 16)) = Some new_HTTPRequest
   \<and> \<not> deleted (snd (start 16))
   \<and> keepalive keepalive_env new_HTTPRequest
   \<and> finishResponse keepalive_env (snd (start 16)) = nextRequest (snd (start 16))
   \<and> trace (snd (finishResponse keepalive_env (snd (start 16)))) =
       [ParserReset, IncRef, RunOnReadable, ParserReset, IncRef, RunOnReadable]
   \<and> \<not> keepalive idle_env new_HTTPRequest
   \<and> finishResponse idle_env (snd (start 16)) = close (snd (start 16))
   \<and> trace (snd (finishResponse idle_env (snd (start 16)))) =
       [ParserReset, IncRef, RunOnReadable, TransportClose, DecRef]"
proof -
  have r: "cur_request (snd (start 16)) = Some new_HTTPRequest"
    and l: "\<not> deleted (snd (start 16))"
    and t: "trace (snd (start 16)) = [ParserReset, IncRef, RunOnReadable]"
    and c: "refcount (snd (start 16)) = 2"
    by (simp_all add: start_state HTTPConnection_def)
  have k1: "keepalive keepalive_env new_HTTPRequest"
    and k2: "\<not> keepalive idle_env new_HTTPRequest"
    by (simp_all add: keepalive_env_def idle_env_def)
  from finishResponse_keepalive [OF r l, of keepalive_env]
    finishResponse_keepalive [OF r l, of idle_env] r l t c k1 k2
  show ?thesis
    by simp
qed

subsection \<open>Streaming a response body\<close>

text \<open>
  Claim C3 says that \<^verbatim>\<open>writeResponseBody\<close> puts the chunk into the write buffer, stores
  the ready callback and arms a write. The function's body is empty: for every input it
  returns and leaves the connection as it was. On the connection that \<^verbatim>\<open>start\<close> leaves,
  called with three bytes and the callback \<open>7\<close>, the write buffer stays empty, the
  write-completion callback stays null, no write is registered and nothing is added to the
  trace.
\<close>

theorem writeResponseBody_stub:
  "writeResponseBody data sz ready_callback c = (Ok (), c)
   \<and> content (buf (snd (writeResponseBody [1, 2, 3] 3 (Some 7) (snd (start 16))))) = []
   \<and> on_write_completed_cb (snd (writeResponseBody [1, 2, 3] 3 (Some 7) (snd (start 16)))) = None
   \<and> writable_armed (snd (writeResponseBody [1, 2, 3] 3 (Some 7) (snd (start 16)))) = 0
   \<and> trace (snd (writeResponseBody [1, 2, 3] 3 (Some 7) (snd (start 16)))) = trace (snd (start 16))"
  by (simp add: writeResponseBody_def ret_def start_state HTTPConnection_def content_def
      reserve_def empty_buffer_def)

subsection \<open>Reading the request body\<close>

text \<open>
  Claim C6. In a parser state before \<open>S_BODY\<close> (\<open>S_METHOD\<close>, \<open>S_URI\<close>, \<open>S_VERSION\<close>,
  \<open>S_HEADER\<close>) \<^verbatim>\<open>readRequestBody\<close> raises \<open>IllegalStateError\<close>; the state it leaves
  differs from the one before in the read-completion callback only, so the body buffer is
  untouched and the chunk callback, of which the result does not depend, has not run. In
  state \<open>S_BODY\<close> the callback receives the body buffer's content with the flag for the
  last chunk false, after which the body buffer is cleared and a read is awaited; in state
  \<open>S_DONE\<close> the callback receives the content with the flag true, and nothing follows.
\<close>

theorem readRequestBody_by_state:
  "(state_rank (parser_state c) < state_rank S_BODY \<longrightarrow>
      readRequestBody callback c =
        (Raise IllegalStateError, c\<lparr>on_read_completed_cb := Some ReadBodyChunkCb\<rparr>))
   \<and> (parser_state c = S_BODY \<longrightarrow>
      readRequestBody callback c =
        and_then
          (callback (content (body_buf c)) False
             (c\<lparr>on_read_completed_cb := Some ReadBodyChunkCb,
                trace := trace c @ [BodyChunk (content (body_buf c)) False]\<rparr>))
          (\<lambda>_ c1. awaitRead (c1\<lparr>body_buf := clear (body_buf c1)\<rparr>)))
   \<and> (parser_state c = S_DONE \<longrightarrow>
      readRequestBody callback c =
        and_then
          (callback (content (body_buf c)) True
             (c\<lparr>on_read_completed_cb := Some ReadBodyChunkCb,
                trace := trace c @ [BodyChunk (content (body_buf c)) True]\<rparr>))
          (\<lambda>_. ret))"
  by (cases "parser_state c")
    (simp_all add: readRequestBody_def read_body_chunk_def deliver_chunk_def emit_def)

theorem readRequestBody_by_state_witness:
  "state_rank (parser_state (with_body S_HEADER)) < state_rank S_BODY
   \<and> readRequestBody (\<lambda>data last. ret) (with_body S_HEADER) =
       (Raise IllegalStateError, (with_body S_HEADER)\<lparr>on_read_completed_cb := Some ReadBodyChunkCb\<rparr>)
   \<and> parser_state (with_body S_BODY) = S_BODY
   \<and> trace (snd (readRequestBody (\<lambda>data last. ret) (with_body S_BODY))) =
       [ParserReset, IncRef, RunOnReadable, BodyChunk [1, 2, 3] False, IncRef, RunOnReadable]
   \<and> content (body_buf (snd (readRequestBody (\<lambda>data last. ret) (with_body S_BODY)))) = []
   \<and> parser_state (with_body S_DONE) = S_DONE
   \<and> trace (snd (readRequestBody (\<lambda>data last. ret) (with_body S_DONE))) =
       [ParserReset, IncRef, RunOnReadable, BodyChunk [1, 2, 3] True]
   \<and> content (body_buf (snd (readRequestBody (\<lambda>data last. ret) (with_body S_DONE)))) = [1, 2, 3]"
proof -
  have h: "state_rank (parser_state (with_body S_HEADER)) < state_rank S_BODY"
    and b: "parser_state (with_body S_BODY) = S_BODY"
    and d: "parser_state (with_body S_DONE) = S_DONE"
    by (simp_all add: with_body_def)
  have l: "\<not> deleted (with_body S_BODY)" "trace (with_body s) = [ParserReset, IncRef, RunOnReadable]"
    "content (body_buf (with_body s)) = [1, 2, 3]" for s
    by (simp_all add: with_body_def start_state HTTPConnection_def content_def append_def
        empty_buffer_def)
  from readRequestBody_by_state [of "with_body S_HEADER" "\<lambda>data last. ret"]
    readRequestBody_by_state [of "with_body S_BODY" "\<lambda>data last. ret"]
    readRequestBody_by_state [of "with_body S_DONE" "\<lambda>data last. ret"]
    h b d l
  show ?thesis
    by (simp add: ret_def awaitRead_live content_def clear_def)
qed

subsection \<open>The error paths of read\<close>

text \<open>
  Claim C5. When the transport's read fails, \<^verbatim>\<open>read\<close> is \<^verbatim>\<open>close\<close> on the connection as it
  was. When the read returns no bytes, the parser's \<^verbatim>\<open>eof\<close> is called and then, whether the
  parser returns or throws an exception, \<^verbatim>\<open>read\<close> is \<^verbatim>\<open>close\<close> on the connection as the
  parser left it. When the read returns bytes and the parser throws an exception, \<^verbatim>\<open>read\<close>
  is \<^verbatim>\<open>close\<close> on the connection as the parser left it. On a live connection \<^verbatim>\<open>close\<close>
  adds to the trace the transport's close, \<^verbatim>\<open>decRef\<close>, and the deletion if that was the last
  reference: the read-completion callback is not called.
\<close>

theorem read_error_paths:
  "read E RxFailed steps c = close (c\<lparr>trace := trace c @ [TransportReadFailed]\<rparr>)
   \<and> (take (allocSize (buf c)) avail = []
        \<and> parser_run E steps (c\<lparr>trace := trace c @ [TransportRead [], ParserEof]\<rparr>) = (Ok (), c2)
      \<longrightarrow> read E (RxBytes avail) steps c = close c2)
   \<and> (take (allocSize (buf c)) avail = []
        \<and> parser_run E steps (c\<lparr>trace := trace c @ [TransportRead [], ParserEof]\<rparr>) = (Raise e, c2)
        \<and> is_exception e
      \<longrightarrow> read E (RxBytes avail) steps c = close c2)
   \<and> (take (allocSize (buf c)) avail = data \<and> data \<noteq> []
        \<and> parser_run E steps
            (c\<lparr>buf := poke data (buf c),
               trace := trace c @ [TransportRead data, ParserParse data]\<rparr>) = (Raise e, c2)
        \<and> is_exception e
      \<longrightarrow> read E (RxBytes avail) steps c = close c2)
   \<and> (\<not> deleted c2 \<longrightarrow>
        close c2 =
          (Ok (),
           c2\<lparr>refcount := refcount c2 - 1, deleted := (refcount c2 = 1),
              trace := trace c2 @ TransportClose # DecRef #
                         (if refcount c2 = 1 then [Delete] else [])\<rparr>))"
proof -
  have a: "read E RxFailed steps c = close (c\<lparr>trace := trace c @ [TransportReadFailed]\<rparr>)"
    by (simp add: read_def emit_def)
  have b: "read E (RxBytes avail) steps c = close c2"
    if z: "take (allocSize (buf c)) avail = []"
      and p: "parser_run E steps (c\<lparr>trace := trace c @ [TransportRead [], ParserEof]\<rparr>) = (Ok (), c2)"
  proof (cases "close c2")
    case (Pair r c3)
    show ?thesis
    proof (cases r)
      case (Ok u)
      with Pair show ?thesis
        by (simp add: read_def emit_def Let_def z p)
    next
      case (Raise x)
      with Pair have "x = UseAfterFree"
        by (rule close_Raise)
      with Pair Raise show ?thesis
        by (simp add: read_def emit_def Let_def z p)
    qed
  qed
  have c: "read E (RxBytes avail) steps c = close c2"
    if z: "take (allocSize (buf c)) avail = []"
      and p: "parser_run E steps (c\<lparr>trace := trace c @ [TransportRead [], ParserEof]\<rparr>) = (Raise e, c2)"
      and x: "is_exception e"
    by (simp add: read_def emit_def Let_def z p x)
  have d: "read E (RxBytes avail) steps c = close c2"
    if z: "take (allocSize (buf c)) avail = data" and n: "data \<noteq> []"
      and p: "parser_run E steps
            (c\<lparr>buf := poke data (buf c),
               trace := trace c @ [TransportRead data, ParserParse data]\<rparr>) = (Raise e, c2)"
      and x: "is_exception e"
    by (simp add: read_def emit_def Let_def z n p x)
  from a b c d show ?thesis
    by (simp add: close_live')
qed

theorem read_error_paths_witness:
  "trace (snd (read idle_env RxFailed [] (snd (start 16)))) =
     [ParserReset, IncRef, RunOnReadable, TransportReadFailed, TransportClose, DecRef]
   \<and> trace (snd (read idle_env (RxBytes []) [] (snd (start 16)))) =
     [ParserReset, IncRef, RunOnReadable, TransportRead [], ParserEof, TransportClose, DecRef]
   \<and> trace (snd (read idle_env (RxBytes []) [PRaise] (snd (start 16)))) =
     [ParserReset, IncRef, RunOnReadable, TransportRead [], ParserEof, TransportClose, DecRef]
   \<and> trace (snd (read idle_env (RxBytes request_bytes) [PMethod 0, PRaise] (snd (start 16)))) =
     [ParserReset, IncRef, RunOnReadable, TransportRead request_bytes,
      ParserParse request_bytes, TransportClose, DecRef]
   \<and> refcount (snd (read idle_env (RxBytes []) [] (snd (start 16)))) = 1
   \<and> \<not> deleted (snd (read idle_env (RxBytes []) [] (snd (start 16))))"
proof -
  let ?c = "snd (start 16)"
  let ?lost = "?c\<lparr>trace := trace ?c @ [TransportReadFailed]\<rparr>"
  let ?eof = "?c\<lparr>trace := trace ?c @ [TransportRead [], ParserEof]\<rparr>"
  let ?parsed = "?c\<lparr>buf := poke request_bytes (buf ?c),
                      trace := trace ?c @ [TransportRead request_bytes, ParserParse request_bytes]\<rparr>"
  let ?failed = "?parsed\<lparr>cur_request := Some (new_HTTPRequest\<lparr>req_method := Some 0\<rparr>)\<rparr>"
  have z: "take (allocSize (buf ?c)) [] = []"
    by simp
  have t: "take (allocSize (buf ?c)) request_bytes = request_bytes" "request_bytes \<noteq> []"
    by (simp_all add: start_state HTTPConnection_def allocSize_def reserve_def empty_buffer_def
        request_bytes_def)
  have p1: "parser_run idle_env [] ?eof = (Ok (), ?eof)"
    by simp
  have p2: "parser_run idle_env [PRaise] ?eof = (Raise ParseError, ?eof)"
    by simp
  have p3: "parser_run idle_env [PMethod 0, PRaise] ?parsed = (Raise ParseError, ?failed)"
    by (simp add: onMethod_def on_request_def start_state HTTPConnection_def)
  have x: "is_exception ParseError"
    by simp
  have l: "\<not> deleted ?lost" "\<not> deleted ?eof" "\<not> deleted ?failed"
    by (simp_all add: start_state HTTPConnection_def)
  have r: "refcount ?c = 2" "trace ?c = [ParserReset, IncRef, RunOnReadable]"
    by (simp_all add: start_state HTTPConnection_def)
  note lost = read_error_paths [of idle_env "[]" ?c "[]" ?lost ParseError "[]"]
  note quiet = read_error_paths [of idle_env "[]" ?c "[]" ?eof ParseError "[]"]
  note thrown = read_error_paths [of idle_env "[PRaise]" ?c "[]" ?eof ParseError "[]"]
  note broken = read_error_paths [of idle_env "[PMethod 0, PRaise]" ?c request_bytes ?failed
      ParseError request_bytes]
  note a = lost [THEN conjunct1]
  note b = quiet [THEN conjunct2, THEN conjunct1, rule_format, OF conjI, OF z p1]
  note c = thrown [THEN conjunct2, THEN conjunct2, THEN conjunct1, rule_format, OF conjI,
      OF z conjI, OF p2 x]
  note d = broken [THEN conjunct2, THEN conjunct2, THEN conjunct2, THEN conjunct1,
      rule_format, OF conjI, OF t(1) conjI, OF t(2) conjI, OF p3 x]
  note e1 = lost [THEN conjunct2, THEN conjunct2, THEN conjunct2, THEN conjunct2,
      rule_format, OF l(1)]
  note e2 = quiet [THEN conjunct2, THEN conjunct2, THEN conjunct2, THEN conjunct2,
      rule_format, OF l(2)]
  note e3 = broken [THEN conjunct2, THEN conjunct2, THEN conjunct2, THEN conjunct2,
      rule_format, OF l(3)]
  show ?thesis
    unfolding a b c d e1 e2 e3
    by (simp add: r)
qed

subsection \<open>The reference released by write\<close>

text \<open>
  Claim C7 says that every path of \<^verbatim>\<open>write\<close>, the transport-error path too, calls
  \<^verbatim>\<open>decRef\<close> once and so releases the reference that \<^verbatim>\<open>awaitWrite\<close> took. When the
  transport throws, \<^verbatim>\<open>write\<close> is \<^verbatim>\<open>close\<close> and nothing more: it returns before its own
  \<^verbatim>\<open>decRef\<close>. The connection whose handler answered with ten bytes holds two references,
  its own and the one of \<^verbatim>\<open>awaitWrite\<close>, and has one write registered. When the scheduler
  runs that write and the transport throws, the transport is closed and one reference is
  released; the connection is left live with a count of one and with no read and no write
  registered, so that no wake-up of the scheduler runs anything on it again and the count
  stays at one. When the transport accepts the ten bytes instead, the ready callback's
  \<^verbatim>\<open>close\<close> and the \<^verbatim>\<open>decRef\<close> of \<^verbatim>\<open>write\<close> release both references and the connection is
  deleted.
\<close>

theorem write_error_keeps_reference:
  "write E (\<lambda>data. TxFailed) c =
     close (c\<lparr>trace := trace c @ [TransportWriteFailed (unconsumed (buf c))]\<rparr>)
   \<and> refcount responding = 2 \<and> \<not> deleted responding
   \<and> writable_armed responding = 1 \<and> readable_armed responding = 0
   \<and> on_writable demo_env (\<lambda>data. TxFailed) responding =
       (Ok (), responding
          \<lparr>refcount := 1, writable_armed := 0,
            trace := trace responding @
              [TransportWriteFailed ten_bytes, TransportClose, DecRef]\<rparr>)
   \<and> on_writable E transport (snd (on_writable demo_env (\<lambda>data. TxFailed) responding)) =
       (Ok (), snd (on_writable demo_env (\<lambda>data. TxFailed) responding))
   \<and> on_readable E r steps (snd (on_writable demo_env (\<lambda>data. TxFailed) responding)) =
       (Ok (), snd (on_writable demo_env (\<lambda>data. TxFailed) responding))
   \<and> on_writable demo_env (accepts 10) responding =
       (Ok (), responding
          \<lparr>refcount := 0, buf := clear (buf responding), deleted := True,
            writable_armed := 0,
            trace := trace responding @
              [TransportWrite ten_bytes 10, WriteCompleted 0, TransportClose, DecRef,
               DecRef, Delete]\<rparr>)"
proof -
  have a: "write E (\<lambda>data. TxFailed) c =
     close (c\<lparr>trace := trace c @ [TransportWriteFailed (unconsumed (buf c))]\<rparr>)"
    by (rule write_failed) simp
  have b: "refcount responding = 2" "\<not> deleted responding"
    "writable_armed responding = 1" "readable_armed responding = 0"
    by (simp_all add: responding_state)
  have c: "on_writable demo_env (\<lambda>data. TxFailed) responding =
       (Ok (), responding
          \<lparr>refcount := 1, writable_armed := 0,
            trace := trace responding @
              [TransportWriteFailed ten_bytes, TransportClose, DecRef]\<rparr>)"
    by (simp add: on_writable_def write_def emit_def close_live' responding_state
        unconsumed_def ten_bytes_def)
  have d: "on_writable E transport (snd (on_writable demo_env (\<lambda>data. TxFailed) responding)) =
       (Ok (), snd (on_writable demo_env (\<lambda>data. TxFailed) responding))"
    unfolding c by (simp add: on_writable_def ret_def)
  have e: "on_readable E r steps (snd (on_writable demo_env (\<lambda>data. TxFailed) responding)) =
       (Ok (), snd (on_writable demo_env (\<lambda>data. TxFailed) responding))"
    unfolding c by (simp add: on_readable_def ret_def b)
  have f: "on_writable demo_env (accepts 10) responding =
       (Ok (), responding
          \<lparr>refcount := 0, buf := clear (buf responding), deleted := True,
            writable_armed := 0,
            trace := trace responding @
              [TransportWrite ten_bytes 10, WriteCompleted 0, TransportClose, DecRef,
               DecRef, Delete]\<rparr>)"
    by (simp add: responding_state on_writable_def write_def accepts_def size_t_add_def
        unconsumed_def Let_def emit_def decRef_live' ten_bytes_def clear_def demo_env_def
        idle_env_def finishResponse_def close_live' ret_def)
  from a b c d e f show ?thesis
    by (simp only: simp_thms)
qed

subsection \<open>The next request\<close>

text \<open>
  Claim C8. On a live connection \<^verbatim>\<open>nextRequest\<close> resets the parser to its initial state
  \<open>S_METHOD\<close>, installs a fresh request, sets the write-completion callback to null and the
  read-completion callback to the default header-phase closure, and then calls
  \<^verbatim>\<open>awaitRead\<close>: the calls it adds to the trace are the parser's reset, then \<^verbatim>\<open>incRef\<close>
  and the registration with the scheduler. The default closure, run on a live connection,
  calls \<^verbatim>\<open>awaitRead\<close> exactly when the parser's state is one of the four states before
  \<open>S_BODY\<close>, and does nothing otherwise.
\<close>

theorem nextRequest_resets:
  assumes "\<not> deleted c" and "\<not> deleted c'"
  shows "nextRequest c =
           (Ok (), c\<lparr>parser_state := S_METHOD, cur_request := Some new_HTTPRequest,
                      on_write_completed_cb := None,
                      on_read_completed_cb := Some DefaultHeaderCb,
                      refcount := refcount c + 1, readable_armed := readable_armed c + 1,
                      trace := trace c @ [ParserReset, IncRef, RunOnReadable]\<rparr>)
         \<and> run_read_cb DefaultHeaderCb c' =
             (if parser_state c' \<in> {S_METHOD, S_URI, S_VERSION, S_HEADER}
              then awaitRead c' else (Ok (), c'))
         \<and> awaitRead c' =
             (Ok (), c'\<lparr>refcount := refcount c' + 1, readable_armed := readable_armed c' + 1,
                         trace := trace c' @ [IncRef, RunOnReadable]\<rparr>)"
proof -
  have "run_read_cb DefaultHeaderCb c' =
          (if parser_state c' \<in> {S_METHOD, S_URI, S_VERSION, S_HEADER}
           then awaitRead c' else (Ok (), c'))"
    by (cases "parser_state c'") (simp_all add: ret_def)
  with assms show ?thesis
    by (simp add: nextRequest_live awaitRead_live)
qed

theorem nextRequest_resets_witness:
  "\<not> deleted (HTTPConnection 16)
   \<and> fst (nextRequest (HTTPConnection 16)) = Ok ()
   \<and> parser_state (snd (nextRequest (HTTPConnection 16))) = S_METHOD
   \<and> on_read_completed_cb (snd (nextRequest (HTTPConnection 16))) = Some DefaultHeaderCb
   \<and> trace (snd (nextRequest (HTTPConnection 16))) = [ParserReset, IncRef, RunOnReadable]
   \<and> readable_armed (snd (run_read_cb DefaultHeaderCb (HTTPConnection 16))) = 1"
proof -
  have live: "\<not> deleted (HTTPConnection 16)"
    by (simp add: HTTPConnection_def)
  have "parser_state (HTTPConnection 16) = S_METHOD" "trace (HTTPConnection 16) = []"
    "readable_armed (HTTPConnection 16) = 0"
    by (simp_all add: HTTPConnection_def)
  with nextRequest_resets [OF live live] live show ?thesis
    by simp
qed

section \<open>Properties of document keys\<close>

text \<open>
  Claim C9. A key constructed from an integer \<open>k\<close> is an integer key, is not a string
  key, and \<^verbatim>\<open>getIntKey\<close> returns \<open>k\<close>. A key constructed from a string \<open>s\<close>, on any heap,
  is a string key, is not an integer key, and the pointer that \<^verbatim>\<open>getStringKey\<close> returns
  points to \<open>s\<close> on the heap that the constructor leaves.
\<close>

theorem documentkey_roundtrip:
  "isIntKey (DocumentKey_int k) \<and> \<not> isStringKey (DocumentKey_int k)
   \<and> getIntKey (DocumentKey_int k) = Inr k
   \<and> isStringKey (fst (DocumentKey_string s h)) \<and> \<not> isIntKey (fst (DocumentKey_string s h))
   \<and> deref_getStringKey (snd (DocumentKey_string s h)) (fst (DocumentKey_string s h)) = Inr s"
  by (simp add: isIntKey_def isStringKey_def getIntKey_def DocumentKey_int_def
      DocumentKey_string_def new_string_def deref_getStringKey_def getStringKey_def)

text \<open>
  Claim C10. The copy constructor, given a key as the constructors make it (the flag
  agrees with the member stored and a string key points to a string), succeeds; the copy
  has the classification of the original, \<^verbatim>\<open>getIntKey\<close> agrees on both, the string that
  the copy's \<^verbatim>\<open>getStringKey\<close> points to equals the original's, the original's string is
  untouched, the getter that fits the classification succeeds, and the copy is again such
  a key. For every key, \<^verbatim>\<open>isIntKey\<close> is the negation of \<^verbatim>\<open>isStringKey\<close>.
\<close>

theorem documentkey_copy:
  assumes "valid_key h d"
  shows "(\<exists>d' h'. DocumentKey_copy d h = (Inr d', h')
            \<and> isIntKey d' = isIntKey d \<and> isStringKey d' = isStringKey d
            \<and> getIntKey d' = getIntKey d
            \<and> deref_getStringKey h' d' = deref_getStringKey h d
            \<and> deref_getStringKey h' d = deref_getStringKey h d
            \<and> (if isIntKey d then \<not> isl (getIntKey d') else \<not> isl (deref_getStringKey h' d'))
            \<and> valid_key h' d')
         \<and> isIntKey d = (\<not> isStringKey d)"
proof (cases "key d")
  case (int_key k)
  with assms show ?thesis
    by (simp add: valid_key_def DocumentKey_copy_def isIntKey_def isStringKey_def
        getIntKey_def deref_getStringKey_def getStringKey_def)
next
  case (string_key p)
  with assms obtain s where "is_string d" "cells h p = Some s"
    by (auto simp: valid_key_def)
  with string_key show ?thesis
    by (simp add: valid_key_def DocumentKey_copy_def isIntKey_def isStringKey_def
        getIntKey_def deref_getStringKey_def getStringKey_def new_string_def)
qed

theorem documentkey_copy_witness:
  "valid_key empty_heap (DocumentKey_int 7)
   \<and> fst (DocumentKey_copy (DocumentKey_int 7) empty_heap) = Inr (DocumentKey_int 7)
   \<and> valid_key (snd (DocumentKey_string ''abc'' empty_heap))
        (fst (DocumentKey_string ''abc'' empty_heap))
   \<and> (\<exists>d' h'. DocumentKey_copy (fst (DocumentKey_string ''abc'' empty_heap))
                 (snd (DocumentKey_string ''abc'' empty_heap)) = (Inr d', h')
         \<and> deref_getStringKey h' d' = Inr ''abc'' \<and> isStringKey d')"
proof -
  have v1: "valid_key empty_heap (DocumentKey_int 7)"
    by (simp add: valid_key_def DocumentKey_int_def)
  have v2: "valid_key (snd (DocumentKey_string ''abc'' empty_heap))
              (fst (DocumentKey_string ''abc'' empty_heap))"
    by (simp add: valid_key_def DocumentKey_string_def new_string_def empty_heap_def)
  have s: "deref_getStringKey (snd (DocumentKey_string ''abc'' empty_heap))
              (fst (DocumentKey_string ''abc'' empty_heap)) = Inr ''abc''"
    by (simp add: deref_getStringKey_def getStringKey_def DocumentKey_string_def
        new_string_def empty_heap_def)
  have i: "fst (DocumentKey_copy (DocumentKey_int 7) empty_heap) = Inr (DocumentKey_int 7)"
    by (simp add: DocumentKey_copy_def DocumentKey_int_def)
  have st: "isStringKey (fst (DocumentKey_string ''abc'' empty_heap))"
    by (simp add: isStringKey_def DocumentKey_string_def new_string_def)
  from documentkey_copy [OF v1] documentkey_copy [OF v2] v1 v2 s i st show ?thesis
    by auto
qed

end
